theory Spec2Isabelle
  imports Main "HOL-Library.Char_ord" "HOL-Library.Sublist"
begin

section \<open>Text and characters\<close>

text \<open>
  The program of \<^verbatim>\<open>src/app/app.py\<close> works on Python \<^verbatim>\<open>str\<close> values. They are modelled
  as \<^typ>\<open>string\<close>, one \<^typ>\<open>char\<close> per code point, so the model covers the code points
  0 to 255 (ASCII and Latin-1). On that range the character classes below are the ones
  of CPython: \<^verbatim>\<open>str.isspace\<close> and the pattern \<^verbatim>\<open>\s\<close> accept 9 to 13, 28 to 32, 133 and
  160; \<^verbatim>\<open>\b\<close> looks at alphanumerics and the underscore; \<^verbatim>\<open>str.lower\<close> moves A to Z and
  the upper-case letters 192 to 222 (without 215) up by 32.
\<close>

definition in_range :: "char \<Rightarrow> char \<Rightarrow> char \<Rightarrow> bool" where
  "in_range lo hi c = (lo \<le> c \<and> c \<le> hi)"

definition is_space :: "char \<Rightarrow> bool" where
  "is_space c =
     (in_range (CHR 0x09) (CHR 0x0D) c \<or> in_range (CHR 0x1C) (CHR 0x20) c
      \<or> c = CHR 0x85 \<or> c = CHR 0xA0)"

definition is_upper_char :: "char \<Rightarrow> bool" where
  "is_upper_char c =
     (in_range CHR ''A'' CHR ''Z'' c \<or> in_range (CHR 0xC0) (CHR 0xD6) c
      \<or> in_range (CHR 0xD8) (CHR 0xDE) c)"

text \<open>
  Adding 32 to an upper-case letter sets the bit of value 32, which is clear in every
  one of them; taking 32 from a lower-case ASCII letter clears it.
\<close>

definition set_bit5 :: "bool \<Rightarrow> char \<Rightarrow> char" where
  "set_bit5 b c = (case c of Char b0 b1 b2 b3 b4 b5 b6 b7 \<Rightarrow> Char b0 b1 b2 b3 b4 b b6 b7)"

definition lower_char :: "char \<Rightarrow> char" where
  "lower_char c = (if is_upper_char c then set_bit5 True c else c)"

text \<open>
  \<^verbatim>\<open>str.upper\<close> is applied by the program to table names only, which the patterns
  restrict to \<^verbatim>\<open>[a-zA-Z0-9_]+\<close>; there it changes a to z and nothing else.
\<close>

definition upper_char :: "char \<Rightarrow> char" where
  "upper_char c = (if in_range CHR ''a'' CHR ''z'' c then set_bit5 False c else c)"

definition lower :: "string \<Rightarrow> string" where
  "lower s = map lower_char s"

definition upper :: "string \<Rightarrow> string" where
  "upper s = map upper_char s"

text \<open>Word characters of \<^verbatim>\<open>\b\<close> (Unicode alphanumeric or underscore, up to 255).\<close>

definition is_uni_word :: "char \<Rightarrow> bool" where
  "is_uni_word c =
     (in_range CHR ''0'' CHR ''9'' c \<or> in_range CHR ''A'' CHR ''Z'' c \<or> c = CHR ''_''
      \<or> in_range CHR ''a'' CHR ''z'' c
      \<or> c = CHR 0xAA \<or> c = CHR 0xB2 \<or> c = CHR 0xB3 \<or> c = CHR 0xB5 \<or> c = CHR 0xB9
      \<or> c = CHR 0xBA \<or> in_range (CHR 0xBC) (CHR 0xBE) c \<or> in_range (CHR 0xC0) (CHR 0xD6) c
      \<or> in_range (CHR 0xD8) (CHR 0xF6) c \<or> in_range (CHR 0xF8) (CHR 0xFF) c)"

subsection \<open>String methods of Python used by the program\<close>

definition lstrip :: "string \<Rightarrow> string" where
  "lstrip s = dropWhile is_space s"

definition rstrip :: "string \<Rightarrow> string" where
  "rstrip s = rev (dropWhile is_space (rev s))"

definition strip :: "string \<Rightarrow> string" where
  "strip s = rstrip (lstrip s)"

text \<open>\<^verbatim>\<open>s.rstrip('.')\<close>: every trailing period goes.\<close>

definition rstrip_dot :: "string \<Rightarrow> string" where
  "rstrip_dot s = rev (dropWhile (\<lambda>c. c = CHR ''.'') (rev s))"

definition startswith :: "string \<Rightarrow> string \<Rightarrow> bool" where
  "startswith s p = (take (length p) s = p)"

text \<open>\<^verbatim>\<open>sub in s\<close> for strings.\<close>

fun contains :: "string \<Rightarrow> string \<Rightarrow> bool" where
  "contains [] sub = (sub = [])"
| "contains (c # cs) sub = (startswith (c # cs) sub \<or> contains cs sub)"

text \<open>
  \<^verbatim>\<open>s.replace(old, new)\<close> for a non-empty \<^verbatim>\<open>old\<close>: the occurrences are taken from left to
  right and do not overlap. The counter is the number of characters of an occurrence
  still to be dropped.
\<close>

fun replace_from :: "string \<Rightarrow> string \<Rightarrow> nat \<Rightarrow> string \<Rightarrow> string" where
  "replace_from old new k [] = []"
| "replace_from old new k (c # cs) =
     (if 0 < k then replace_from old new (k - 1) cs
      else if startswith (c # cs) old then new @ replace_from old new (length old - 1) cs
      else c # replace_from old new 0 cs)"

definition replace :: "string \<Rightarrow> string \<Rightarrow> string \<Rightarrow> string" where
  "replace s old new = replace_from old new 0 s"

text \<open>\<^verbatim>\<open>s.split(sep)\<close> for a one-character separator: empty pieces are kept.\<close>

fun split_on :: "char \<Rightarrow> string \<Rightarrow> string list" where
  "split_on sep [] = [[]]"
| "split_on sep (c # cs) =
     (case split_on sep cs of
        [] \<Rightarrow> (if c = sep then [[], []] else [[c]])
      | p # ps \<Rightarrow> (if c = sep then [] # p # ps else (c # p) # ps))"

text \<open>\<^verbatim>\<open>sep.join(parts)\<close>.\<close>

fun join :: "string \<Rightarrow> string list \<Rightarrow> string" where
  "join sep [] = []"
| "join sep [p] = p"
| "join sep (p # q # ps) = p @ sep @ join sep (q # ps)"

section \<open>Regular expressions\<close>

text \<open>
  The patterns of the program are built from literals, character classes, the dot,
  sequence, alternation, greedy and lazy repetition of a one-character matcher, optional
  parts, capture groups, \<^verbatim>\<open>\b\<close> and \<^verbatim>\<open>$\<close>. Every pattern is compiled with
  \<^verbatim>\<open>re.IGNORECASE\<close>, which is therefore part of the matcher.
\<close>

datatype citem = CSpace | CNonSpace | CRange char char | CChar char

datatype atom = Lit char | Cls "citem list" | Dot

datatype regex =
    Eps
  | Atom atom
  | Seq regex regex
  | Alt regex regex
  | Rep bool nat atom
  | Group nat regex
  | WordB
  | Eol

fun item_ok :: "citem \<Rightarrow> char \<Rightarrow> bool" where
  "item_ok CSpace c = is_space c"
| "item_ok CNonSpace c = (\<not> is_space c)"
| "item_ok (CRange lo hi) c = in_range lo hi c"
| "item_ok (CChar d) c = (c = d)"

text \<open>
  With \<^verbatim>\<open>re.IGNORECASE\<close> a class accepts a character when it lists the character or
  its form in the other case.
\<close>

definition cls_ok :: "citem list \<Rightarrow> char \<Rightarrow> bool" where
  "cls_ok items c =
     (list_ex (\<lambda>i. item_ok i c) items
      \<or> list_ex (\<lambda>i. item_ok i (lower_char c)) items
      \<or> list_ex (\<lambda>i. item_ok i (upper_char c)) items)"

fun atom_ok :: "atom \<Rightarrow> char \<Rightarrow> bool" where
  "atom_ok (Lit d) c = (lower_char c = lower_char d)"
| "atom_ok (Cls items) c = cls_ok items c"
| "atom_ok Dot c = (c \<noteq> CHR 0x0A)"

text \<open>
  The matcher is a backtracking one, as Python's: it is given the text before the
  current position (reversed), the text after it, the groups captured so far and what
  has to match after the pattern, and it returns the first success in Python's order of
  preference (left alternative first, longest first for a greedy repetition, shortest
  first for a lazy one).
\<close>

type_synonym mstate = "string \<times> string \<times> (nat \<times> string) list"

fun rep_greedy ::
  "(char \<Rightarrow> bool) \<Rightarrow> nat \<Rightarrow> string \<Rightarrow> string \<Rightarrow> (string \<Rightarrow> string \<Rightarrow> 'a option) \<Rightarrow> 'a option" where
  "rep_greedy p n pre [] k = (if n = 0 then k pre [] else None)"
| "rep_greedy p n pre (c # cs) k =
     (case (if p c then rep_greedy p (n - 1) (c # pre) cs k else None) of
        Some r \<Rightarrow> Some r
      | None \<Rightarrow> (if n = 0 then k pre (c # cs) else None))"

fun rep_lazy ::
  "(char \<Rightarrow> bool) \<Rightarrow> nat \<Rightarrow> string \<Rightarrow> string \<Rightarrow> (string \<Rightarrow> string \<Rightarrow> 'a option) \<Rightarrow> 'a option" where
  "rep_lazy p n pre [] k = (if n = 0 then k pre [] else None)"
| "rep_lazy p n pre (c # cs) k =
     (case (if n = 0 then k pre (c # cs) else None) of
        Some r \<Rightarrow> Some r
      | None \<Rightarrow> (if p c then rep_lazy p (n - 1) (c # pre) cs k else None))"

definition is_boundary :: "string \<Rightarrow> string \<Rightarrow> bool" where
  "is_boundary pre post =
     ((case pre of [] \<Rightarrow> False | c # _ \<Rightarrow> is_uni_word c)
        \<noteq> (case post of [] \<Rightarrow> False | c # _ \<Rightarrow> is_uni_word c))"

definition captured :: "string \<Rightarrow> string \<Rightarrow> string" where
  "captured pre pre' = rev (take (length pre' - length pre) pre')"

fun rmatch :: "regex \<Rightarrow> mstate \<Rightarrow> (mstate \<Rightarrow> 'a option) \<Rightarrow> 'a option" where
  "rmatch Eps (pre, post, caps) k = k (pre, post, caps)"
| "rmatch (Atom a) (pre, post, caps) k =
     (case post of
        [] \<Rightarrow> None
      | c # cs \<Rightarrow> (if atom_ok a c then k (c # pre, cs, caps) else None))"
| "rmatch (Seq r1 r2) (pre, post, caps) k = rmatch r1 (pre, post, caps) (\<lambda>st'. rmatch r2 st' k)"
| "rmatch (Alt r1 r2) (pre, post, caps) k =
     (case rmatch r1 (pre, post, caps) k of
        Some x \<Rightarrow> Some x
      | None \<Rightarrow> rmatch r2 (pre, post, caps) k)"
| "rmatch (Rep greedy n a) (pre, post, caps) k =
     (if greedy then rep_greedy (atom_ok a) n pre post (\<lambda>pre' post'. k (pre', post', caps))
      else rep_lazy (atom_ok a) n pre post (\<lambda>pre' post'. k (pre', post', caps)))"
| "rmatch (Group i r) (pre, post, caps) k =
     rmatch r (pre, post, caps)
       (\<lambda>(pre', post', caps'). k (pre', post', (i, captured pre pre') # caps'))"
| "rmatch WordB (pre, post, caps) k =
     (if is_boundary pre post then k (pre, post, caps) else None)"
| "rmatch Eol (pre, post, caps) k =
     (if post = [] \<or> post = [CHR 0x0A] then k (pre, post, caps) else None)"

text \<open>A match object: where it starts, the matched text and the groups, latest first.\<close>

record match =
  m_start :: nat
  m_text :: string
  m_caps :: "(nat \<times> string) list"

definition group :: "match \<Rightarrow> nat \<Rightarrow> string option" where
  "group m i = (if i = 0 then Some (m_text m) else map_of (m_caps m) i)"

text \<open>A group that took no part is \<^verbatim>\<open>None\<close> in Python, printed as such by an f-string.\<close>

definition group_str :: "match \<Rightarrow> nat \<Rightarrow> string" where
  "group_str m i = (case group m i of Some g \<Rightarrow> g | None \<Rightarrow> ''None'')"

text \<open>
  One attempt at one position. With \<open>adv\<close> set the attempt refuses the empty match, as
  Python does right after an empty match at the same position.
\<close>

definition try_at :: "regex \<Rightarrow> bool \<Rightarrow> string \<Rightarrow> string \<Rightarrow> match option" where
  "try_at r adv pre post =
     rmatch r (pre, post, [])
       (\<lambda>(pre', post', caps').
          if adv \<and> length pre' = length pre then None
          else Some \<lparr>m_start = length pre, m_text = captured pre pre', m_caps = caps'\<rparr>)"

definition re_match :: "regex \<Rightarrow> string \<Rightarrow> match option" where
  "re_match r s = try_at r False [] s"

fun search_from :: "regex \<Rightarrow> string \<Rightarrow> string \<Rightarrow> match option" where
  "search_from r pre [] = try_at r False pre []"
| "search_from r pre (c # cs) =
     (case try_at r False pre (c # cs) of
        Some m \<Rightarrow> Some m
      | None \<Rightarrow> search_from r (c # pre) cs)"

definition re_search :: "regex \<Rightarrow> string \<Rightarrow> match option" where
  "re_search r s = search_from r [] s"

text \<open>
  The scan of \<^verbatim>\<open>findall\<close> and \<^verbatim>\<open>sub\<close>: matches are taken from left to right and do not
  overlap. \<open>skip\<close> counts the characters of the last match still to be passed.
\<close>

fun finditer_from :: "regex \<Rightarrow> string \<Rightarrow> string \<Rightarrow> nat \<Rightarrow> match list" where
  "finditer_from r pre [] skip =
     (if skip = 0 then (case try_at r False pre [] of Some m \<Rightarrow> [m] | None \<Rightarrow> []) else [])"
| "finditer_from r pre (c # cs) skip =
     (if 0 < skip then finditer_from r (c # pre) cs (skip - 1)
      else case try_at r False pre (c # cs) of
        None \<Rightarrow> finditer_from r (c # pre) cs 0
      | Some m \<Rightarrow>
          if m_text m = [] then
            m # (case try_at r True pre (c # cs) of
                   None \<Rightarrow> finditer_from r (c # pre) cs 0
                 | Some m2 \<Rightarrow> m2 # finditer_from r (c # pre) cs (length (m_text m2) - 1))
          else m # finditer_from r (c # pre) cs (length (m_text m) - 1))"

definition finditer :: "regex \<Rightarrow> string \<Rightarrow> match list" where
  "finditer r s = finditer_from r [] s 0"

fun sub_from :: "regex \<Rightarrow> (match \<Rightarrow> string) \<Rightarrow> string \<Rightarrow> string \<Rightarrow> nat \<Rightarrow> string" where
  "sub_from r repl pre [] skip =
     (if skip = 0 then (case try_at r False pre [] of Some m \<Rightarrow> repl m | None \<Rightarrow> []) else [])"
| "sub_from r repl pre (c # cs) skip =
     (if 0 < skip then sub_from r repl (c # pre) cs (skip - 1)
      else case try_at r False pre (c # cs) of
        None \<Rightarrow> c # sub_from r repl (c # pre) cs 0
      | Some m \<Rightarrow>
          if m_text m = [] then
            repl m @ (case try_at r True pre (c # cs) of
                        None \<Rightarrow> c # sub_from r repl (c # pre) cs 0
                      | Some m2 \<Rightarrow> repl m2 @ sub_from r repl (c # pre) cs (length (m_text m2) - 1))
          else repl m @ sub_from r repl (c # pre) cs (length (m_text m) - 1))"

definition re_sub :: "regex \<Rightarrow> (match \<Rightarrow> string) \<Rightarrow> string \<Rightarrow> string" where
  "re_sub r repl s = sub_from r repl [] s 0"

subsection \<open>The patterns of the program\<close>

definition seqs :: "regex list \<Rightarrow> regex" where
  "seqs rs = foldr Seq rs Eps"

definition lits :: "string \<Rightarrow> regex" where
  "lits s = seqs (map (\<lambda>c. Atom (Lit c)) s)"

definition any_char :: atom where
  "any_char = Cls [CSpace, CNonSpace]"

definition space_char :: atom where
  "space_char = Cls [CSpace]"

definition word_char :: atom where
  "word_char = Cls [CRange CHR ''a'' CHR ''z'', CRange CHR ''A'' CHR ''Z'', CRange CHR ''0'' CHR ''9'', CChar CHR ''_'']"

definition order_char :: atom where
  "order_char = Cls [CRange CHR ''a'' CHR ''z'', CRange CHR ''A'' CHR ''Z'', CRange CHR ''0'' CHR ''9'',
                     CChar CHR ''_'', CChar CHR '','', CSpace, CChar CHR ''~'']"

text \<open>\<^verbatim>\<open>(select[\s\S]+?from\s+([a-zA-Z0-9_]+)[\s\S]*?\.)\<close>\<close>

definition select_full_pattern :: regex where
  "select_full_pattern =
     Group 1 (seqs [lits ''select'', Rep False 1 any_char, lits ''from'', Rep True 1 space_char,
                    Group 2 (Rep True 1 word_char), Rep False 0 any_char, Atom (Lit CHR ''.'')])"

text \<open>\<^verbatim>\<open>\bjoin\s+([a-zA-Z0-9_]+)\<close>\<close>

definition join_pattern :: regex where
  "join_pattern = seqs [WordB, lits ''join'', Rep True 1 space_char, Group 1 (Rep True 1 word_char)]"

text \<open>\<^verbatim>\<open>\b{re.escape(t_old)}~\<close>; the escaped name matches itself, letter for letter.\<close>

definition qualifier_pattern :: "string \<Rightarrow> regex" where
  "qualifier_pattern t_old = seqs [WordB, lits t_old, Atom (Lit CHR ''~'')]"

text \<open>\<^verbatim>\<open>(\bfrom|\bjoin)\s+{re.escape(t_old)}\b\<close>\<close>

definition from_join_pattern :: "string \<Rightarrow> regex" where
  "from_join_pattern t_old =
     seqs [Group 1 (Alt (Seq WordB (lits ''from'')) (Seq WordB (lits ''join''))),
           Rep True 1 space_char, lits t_old, WordB]"

text \<open>\<^verbatim>\<open>select\s+(.*?)\s+from\<close>\<close>

definition sel_fields_pattern :: regex where
  "sel_fields_pattern =
     seqs [lits ''select'', Rep True 1 space_char, Group 1 (Rep False 0 Dot),
           Rep True 1 space_char, lits ''from'']"

text \<open>\<^verbatim>\<open>select\s+\*\s+from\<close>\<close>

definition select_star_pattern :: regex where
  "select_star_pattern =
     seqs [lits ''select'', Rep True 1 space_char, Atom (Lit CHR ''*''),
           Rep True 1 space_char, lits ''from'']"

text \<open>\<^verbatim>\<open>\s+where\s+(.+?)\.?$\<close>\<close>

definition where_pattern :: regex where
  "where_pattern =
     seqs [Rep True 1 space_char, lits ''where'', Rep True 1 space_char, Group 1 (Rep False 1 Dot),
           Alt (Atom (Lit CHR ''.'')) Eps, Eol]"

text \<open>\<^verbatim>\<open>for\s+all\s+entries\s+in\s+\<close>\<close>

definition fae_pattern :: regex where
  "fae_pattern =
     seqs [lits ''for'', Rep True 1 space_char, lits ''all'', Rep True 1 space_char,
           lits ''entries'', Rep True 1 space_char, lits ''in'', Rep True 1 space_char]"

text \<open>\<^verbatim>\<open>order\s+by\s+([a-zA-Z0-9_,\s~]+)\<close>\<close>

definition order_by_pattern :: regex where
  "order_by_pattern =
     seqs [lits ''order'', Rep True 1 space_char, lits ''by'', Rep True 1 space_char,
           Group 1 (Rep True 1 order_char)]"

section \<open>The tables of the program\<close>

definition TABLE_MAP :: "(string \<times> string) list" where
  "TABLE_MAP =
     [(''MARC'', ''NSDM_V_MARC''),
      (''MARD'', ''NSDM_V_MARD''),
      (''KONV'', ''PRCD_ELEMENTS''),
      (''J_1BBRANCH'', ''P_BUSINESSPLACE''),
      (''J_1IMOVEND'', ''LFA1''),
      (''J_1IMOCUST'', ''KNA1'')]"

definition SUGGESTED_FIELDS :: "(string \<times> string list) list" where
  "SUGGESTED_FIELDS =
     [(''NSDM_V_MARC'', [''MATNR'', ''WERKS'']),
      (''NSDM_V_MARD'', [''MATNR'', ''WERKS'', ''LGORT'']),
      (''PRCD_ELEMENTS'', [''KNUMV'', ''KPOSN'', ''STUNR'', ''ZAEHK'']),
      (''P_BUSINESSPLACE'', [''BUKRS,BRANCH'']),
      (''LFA1'', [''LIFNR'']),
      (''KNA1'', [''KUNNR''])]"

text \<open>
  \<^verbatim>\<open>d[k] = v\<close> on a Python dictionary, which keeps the order of insertion: a key
  already there keeps its place.
\<close>

fun dict_set :: "'k \<Rightarrow> 'v \<Rightarrow> ('k \<times> 'v) list \<Rightarrow> ('k \<times> 'v) list" where
  "dict_set k v [] = [(k, v)]"
| "dict_set k v ((k', v') # d) = (if k' = k then (k', v) # d else (k', v') # dict_set k v d)"

section \<open>The rule engine: \<^verbatim>\<open>analyze_and_suggest\<close>\<close>

text \<open>
  The body of the loop over the extracted statements keeps two variables that every rule
  may change: the list \<^verbatim>\<open>issue_msgs\<close> and the text \<^verbatim>\<open>adjusted_code\<close>. Each block of the
  body is a function on this pair. The variable \<^verbatim>\<open>fields\<close> of the source is \<open>flds\<close>
  below, and \<open>table\<close> is its \<^verbatim>\<open>adjusted_main_table\<close>.
\<close>

type_synonym work = "string list \<times> string"

subsection \<open>Tables to replace (lines 61 to 80)\<close>

definition add_table :: "string \<Rightarrow> (string \<times> string) list \<Rightarrow> (string \<times> string) list" where
  "add_table t d =
     (case map_of TABLE_MAP (upper t) of
        Some new_table \<Rightarrow> dict_set (upper t) new_table d
      | None \<Rightarrow> d)"

definition join_tables :: "string \<Rightarrow> string list" where
  "join_tables stmt = map (\<lambda>m. group_str m 1) (finditer join_pattern stmt)"

definition tables_to_replace :: "string \<Rightarrow> string \<Rightarrow> (string \<times> string) list" where
  "tables_to_replace stmt main_table = fold add_table (join_tables stmt) (add_table main_table [])"

fun replace_table :: "string \<times> string \<Rightarrow> work \<Rightarrow> work" where
  "replace_table (t_old, t_new) (issue_msgs, adjusted_code) =
     (issue_msgs @ [''Use replacement table `'' @ t_new @ ''` instead of `'' @ t_old @ ''`.''],
      re_sub (from_join_pattern t_old) (\<lambda>m. group_str m 1 @ '' '' @ t_new)
        (re_sub (qualifier_pattern t_old) (\<lambda>m. t_new @ ''~'') adjusted_code))"

definition replace_tables :: "(string \<times> string) list \<Rightarrow> work \<Rightarrow> work" where
  "replace_tables tables w = fold replace_table tables w"

subsection \<open>Field detection and \<^verbatim>\<open>SELECT *\<close> (lines 83 to 114)\<close>

definition sel_fields :: "string \<Rightarrow> string" where
  "sel_fields stmt =
     (case re_match sel_fields_pattern stmt of
        Some m \<Rightarrow> strip (group_str m 1)
      | None \<Rightarrow> ''*'')"

definition adjusted_main_table :: "(string \<times> string) list \<Rightarrow> string \<Rightarrow> string" where
  "adjusted_main_table tables main_table =
     (case map_of tables (upper main_table) of Some t \<Rightarrow> t | None \<Rightarrow> upper main_table)"

text \<open>The test written twice in the source, for \<^verbatim>\<open>is_star_select\<close> and \<^verbatim>\<open>is_single_star\<close>.\<close>

definition is_star :: "string \<Rightarrow> bool" where
  "is_star flds = (flds = ''*'' \<or> lower flds = ''distinct *'')"

text \<open>\<^verbatim>\<open>", ".join(SUGGESTED_FIELDS.get(table, []))\<close>\<close>

definition suggested :: "string \<Rightarrow> string" where
  "suggested table =
     join '', '' (case map_of SUGGESTED_FIELDS table of Some fs \<Rightarrow> fs | None \<Rightarrow> [])"

text \<open>\<^verbatim>\<open>replacement_fields\<close> once the placeholder has taken the place of an empty suggestion.\<close>

definition or_placeholder :: "string \<Rightarrow> string" where
  "or_placeholder replacement_fields =
     (if replacement_fields \<noteq> [] then replacement_fields else ''<field_list>'')"

definition field_name_list :: "string \<Rightarrow> string list" where
  "field_name_list flds =
     map strip (filter (\<lambda>x. strip x \<noteq> []) (split_on CHR '','' (replace flds ''distinct'' [])))"

definition explicit_fields :: "string \<Rightarrow> string \<Rightarrow> string" where
  "explicit_fields flds table =
     (if is_star flds then or_placeholder (suggested table)
      else join '', '' (field_name_list flds))"

definition star_msg :: "string \<Rightarrow> string" where
  "star_msg replacement_fields =
     (if replacement_fields \<noteq> []
      then ''Avoid `SELECT *`. Use only these fields: '' @ replacement_fields @ ''.''
      else ''Avoid `SELECT *`. Use an explicit field list.'')"

fun star_step :: "string \<Rightarrow> string \<Rightarrow> work \<Rightarrow> work" where
  "star_step flds table (issue_msgs, adjusted_code) =
     (if is_star flds then
        (issue_msgs @ [star_msg (suggested table)],
         re_sub select_star_pattern
           (\<lambda>m. ''SELECT '' @ or_placeholder (suggested table) @ '' FROM'') adjusted_code)
      else (issue_msgs, adjusted_code))"

subsection \<open>\<^verbatim>\<open>SELECT SINGLE\<close> (lines 117 to 144)\<close>

definition is_single :: "string \<Rightarrow> bool" where
  "is_single flds = startswith (lower (strip flds)) ''single''"

text \<open>\<^verbatim>\<open>real_fields\<close> before the test for a wildcard, and after it.\<close>

definition or_explicit :: "string \<Rightarrow> string \<Rightarrow> string \<Rightarrow> string" where
  "or_explicit r flds table = (if r = [] then explicit_fields flds table else r)"

definition real_fields0 :: "string \<Rightarrow> string \<Rightarrow> string" where
  "real_fields0 flds table =
     or_explicit (strip (drop (length ''single '') (strip flds))) flds table"

definition resolve_star :: "string \<Rightarrow> string \<Rightarrow> string" where
  "resolve_star r table = (if is_star r then or_placeholder (suggested table) else r)"

definition real_fields :: "string \<Rightarrow> string \<Rightarrow> string" where
  "real_fields flds table = resolve_star (real_fields0 flds table) table"

definition where_clause :: "string \<Rightarrow> string" where
  "where_clause stmt =
     (case re_search where_pattern stmt of
        Some m \<Rightarrow> ''WHERE '' @ strip (group_str m 1)
      | None \<Rightarrow> [])"

definition single_msgs :: "string \<Rightarrow> string \<Rightarrow> string \<Rightarrow> string list" where
  "single_msgs stmt flds table =
     [''Do not use `SELECT SINGLE`. Prefer `SELECT ... UP TO 1 ROWS ORDER BY ... . ENDSELECT.` for clarity and compliance.'']
     @ (if is_star (real_fields0 flds table) \<and> suggested table \<noteq> []
        then [''Use only these fields instead of *: '' @ suggested table @ ''.'']
        else [])
     @ (if contains (lower stmt) ''order by''
        then [''Do NOT use `ORDER BY` with `SELECT SINGLE`. Use `UP TO 1 ROWS ... ORDER BY ...` instead.'']
        else [])"

definition single_code :: "string \<Rightarrow> string \<Rightarrow> string \<Rightarrow> string" where
  "single_code rf new_table_str wc =
     ''SELECT '' @ rf @ '' FROM '' @ new_table_str @ '' '' @ wc @ '' UP TO 1 ROWS ''
       @ (if rf \<noteq> ''<field_list>'' then ''ORDER BY '' @ rf else []) @ ''. ENDSELECT.''"

fun single_step :: "string \<Rightarrow> string \<Rightarrow> string \<Rightarrow> work \<Rightarrow> work" where
  "single_step stmt flds table (issue_msgs, adjusted_code) =
     (if is_single flds then
        (issue_msgs @ single_msgs stmt flds table,
         single_code (real_fields flds table) table (where_clause stmt))
      else (issue_msgs, adjusted_code))"

subsection \<open>\<^verbatim>\<open>FOR ALL ENTRIES\<close> and \<^verbatim>\<open>ORDER BY\<close> (lines 147 to 175)\<close>

definition fae_present :: "string \<Rightarrow> bool" where
  "fae_present stmt = (re_search fae_pattern stmt \<noteq> None)"

definition order_by_match :: "string \<Rightarrow> match option" where
  "order_by_match stmt = re_search order_by_pattern stmt"

text \<open>
  \<^verbatim>\<open>sort_fields\<close> and \<^verbatim>\<open>order_by_fields\<close> of the source are the same expression.
\<close>

definition sort_fields :: "string \<Rightarrow> string \<Rightarrow> string" where
  "sort_fields flds table =
     (if \<not> is_star flds then explicit_fields flds table else suggested table)"

text \<open>Lines 152 to 157: \<^verbatim>\<open>FOR ALL ENTRIES\<close> with an \<^verbatim>\<open>ORDER BY\<close>.\<close>

definition fae_order_msg :: "string \<Rightarrow> string" where
  "fae_order_msg order_fields =
     ''When using FOR ALL ENTRIES, do not use `ORDER BY` in SQL. Instead, sort the resulting internal table in ABAP.''
     @ (if order_fields \<noteq> [] then '' Use: SORT <itab> BY '' @ order_fields @ ''.'' else [])"

fun drop_order_by :: "match \<Rightarrow> work \<Rightarrow> work" where
  "drop_order_by order_by_m (issue_msgs, adjusted_code) =
     (issue_msgs @ [fae_order_msg (strip (group_str order_by_m 1))],
      re_sub order_by_pattern (\<lambda>m. []) adjusted_code)"

text \<open>Lines 162 to 164: \<^verbatim>\<open>FOR ALL ENTRIES\<close> without an \<^verbatim>\<open>ORDER BY\<close>.\<close>

fun sort_hint :: "string \<Rightarrow> work \<Rightarrow> work" where
  "sort_hint sf (issue_msgs, adjusted_code) =
     (if sf \<noteq> [] \<and> sf \<noteq> ''<field_list>''
      then (issue_msgs @
              [''For deterministic results, sort the resulting internal table in ABAP. Use: SORT <itab> BY ''
               @ sf @ ''.''],
            adjusted_code)
      else (issue_msgs, adjusted_code))"

text \<open>Lines 171 to 175: neither \<^verbatim>\<open>FOR ALL ENTRIES\<close> nor \<^verbatim>\<open>ORDER BY\<close>.\<close>

fun add_order_by :: "string \<Rightarrow> work \<Rightarrow> work" where
  "add_order_by order_by_fields (issue_msgs, adjusted_code) =
     (if order_by_fields \<noteq> [] \<and> order_by_fields \<noteq> ''<field_list>''
      then (issue_msgs @
              [''For deterministic results, add `ORDER BY '' @ order_by_fields
               @ ''` to the SELECT statement.''],
            strip (rstrip_dot adjusted_code) @ '' ORDER BY '' @ order_by_fields @ ''.'')
      else (issue_msgs, adjusted_code))"

definition order_step :: "string \<Rightarrow> string \<Rightarrow> string \<Rightarrow> work \<Rightarrow> work" where
  "order_step stmt flds table w =
     (if fae_present stmt then
        (case order_by_match stmt of
           Some m \<Rightarrow> drop_order_by m w
         | None \<Rightarrow> (if \<not> is_single flds then sort_hint (sort_fields flds table) w else w))
      else
        (if \<not> is_single flds \<and> order_by_match stmt = None
         then add_order_by (sort_fields flds table) w
         else w))"

subsection \<open>One statement, one unit of code, the endpoint\<close>

text \<open>Lines 177 to 183: the issue of a statement, if any message was produced.\<close>

record issue =
  suggestion :: string
  snippet :: string
  adjusted_code :: string

fun make_issue :: "string \<Rightarrow> work \<Rightarrow> issue option" where
  "make_issue stmt (issue_msgs, adjusted) =
     (if issue_msgs \<noteq> []
      then Some \<lparr>suggestion = join '' '' issue_msgs, snippet = stmt, adjusted_code = adjusted\<rparr>
      else None)"

text \<open>
  The blocks in the order of the source, each working on what the one before left.
\<close>

definition apply_rules :: "string \<Rightarrow> (string \<times> string) list \<Rightarrow> string \<Rightarrow> string \<Rightarrow> work" where
  "apply_rules stmt tables flds table =
     order_step stmt flds table
       (single_step stmt flds table
         (star_step flds table
           (replace_tables tables ([], stmt))))"

definition analyze_tables :: "string \<Rightarrow> string \<Rightarrow> (string \<times> string) list \<Rightarrow> issue option" where
  "analyze_tables stmt main_table tables =
     make_issue stmt
       (apply_rules stmt tables (sel_fields stmt) (adjusted_main_table tables main_table))"

definition analyze_stripped :: "string \<Rightarrow> string \<Rightarrow> issue option" where
  "analyze_stripped stmt main_table =
     analyze_tables stmt main_table (tables_to_replace stmt main_table)"

definition analyze_stmt :: "string \<Rightarrow> string \<Rightarrow> issue option" where
  "analyze_stmt orig_stmt main_table = analyze_stripped (strip orig_stmt) main_table"

text \<open>
  The loop over \<^verbatim>\<open>select_full_pattern.findall(code)\<close>, with its two variables
  \<^verbatim>\<open>suggestions\<close> and \<^verbatim>\<open>found_issue\<close>. The result is \<^verbatim>\<open>{}\<close> (here \<open>None\<close>) or
  \<^verbatim>\<open>{"issues": suggestions}\<close>.
\<close>

definition statements :: "string \<Rightarrow> (string \<times> string) list" where
  "statements code = map (\<lambda>m. (group_str m 1, group_str m 2)) (finditer select_full_pattern code)"

fun loop_body :: "string \<times> string \<Rightarrow> issue list \<times> bool \<Rightarrow> issue list \<times> bool" where
  "loop_body (orig_stmt, main_table) (suggestions, found_issue) =
     (case analyze_stmt orig_stmt main_table of
        Some i \<Rightarrow> (suggestions @ [i], True)
      | None \<Rightarrow> (suggestions, found_issue))"

fun result_of :: "issue list \<times> bool \<Rightarrow> issue list option" where
  "result_of (suggestions, found_issue) = (if \<not> found_issue then None else Some suggestions)"

definition analyze_and_suggest :: "string \<Rightarrow> issue list option" where
  "analyze_and_suggest code = result_of (fold loop_body (statements code) ([], False))"

text \<open>The endpoint \<^verbatim>\<open>analyze_code\<close>: \<^verbatim>\<open>Unit\<close>, \<^verbatim>\<open>UnitWithSuggestion\<close> and the loop over the units.\<close>

record unit =
  pgm_name :: string
  inc_name :: string
  type :: string
  name :: "string option"
  class_implementation :: "string option"
  start_line :: "int option"
  end_line :: "int option"
  code :: "string option"

record unit_with_suggestion = unit +
  issues :: "issue list"

definition code_or_empty :: "unit \<Rightarrow> string" where
  "code_or_empty u = (case code u of Some c \<Rightarrow> c | None \<Rightarrow> [])"

definition issues_of :: "issue list option \<Rightarrow> issue list" where
  "issues_of res = (case res of Some is \<Rightarrow> is | None \<Rightarrow> [])"

definition analyze_unit :: "unit \<Rightarrow> unit_with_suggestion" where
  "analyze_unit u =
     unit.extend u (unit_with_suggestion.fields (issues_of (analyze_and_suggest (code_or_empty u))))"

definition analyze_code :: "unit list \<Rightarrow> unit_with_suggestion list" where
  "analyze_code units = map analyze_unit units"

section \<open>Definitions for the proofs\<close>

subsection \<open>The rewrites as functions on the text\<close>

text \<open>
  What each block of the loop body does to \<^verbatim>\<open>adjusted_code\<close>, apart from the messages:
  the two substitutions of one replaced table, all replaced tables in turn, the
  replacement of the wildcard, and the change of the ordering policy.
\<close>

fun table_text :: "string \<times> string \<Rightarrow> string \<Rightarrow> string" where
  "table_text (t_old, t_new) text =
     re_sub (from_join_pattern t_old) (\<lambda>m. group_str m 1 @ '' '' @ t_new)
       (re_sub (qualifier_pattern t_old) (\<lambda>m. t_new @ ''~'') text)"

definition remap_text :: "(string \<times> string) list \<Rightarrow> string \<Rightarrow> string" where
  "remap_text tables text = fold table_text tables text"

definition star_text :: "string \<Rightarrow> string \<Rightarrow> string \<Rightarrow> string" where
  "star_text flds table text =
     (if is_star flds
      then re_sub select_star_pattern (\<lambda>m. ''SELECT '' @ or_placeholder (suggested table) @ '' FROM'') text
      else text)"

definition order_text :: "string \<Rightarrow> string \<Rightarrow> string \<Rightarrow> string \<Rightarrow> string" where
  "order_text stmt flds table text =
     (if fae_present stmt then
        (if order_by_match stmt \<noteq> None then re_sub order_by_pattern (\<lambda>m. []) text else text)
      else if \<not> is_single flds \<and> order_by_match stmt = None
              \<and> sort_fields flds table \<noteq> [] \<and> sort_fields flds table \<noteq> ''<field_list>''
           then strip (rstrip_dot text) @ '' ORDER BY '' @ sort_fields flds table @ ''.''
           else text)"

text \<open>
  The statement that lines 140 to 142 build for a single-row statement, with the WHERE
  clause searched in the text \<open>text\<close>. The source searches it in \<^verbatim>\<open>stmt\<close>.
\<close>

definition rebuilt_text :: "string \<Rightarrow> string \<Rightarrow> string \<Rightarrow> string" where
  "rebuilt_text flds table text = single_code (real_fields flds table) table (where_clause text)"

text \<open>
  The adjusted code as the spec describes it in its section 4.7, in the spec's words:
  every rewrite is applied in sequence, and a later rewrite operates on the output of
  the earlier ones, not on the original text. So the rebuild of a single-row statement
  reads its WHERE clause in the text that table remapping and wildcard replacement
  have left.
\<close>

definition cumulative_text :: "string \<Rightarrow> (string \<times> string) list \<Rightarrow> string \<Rightarrow> string \<Rightarrow> string" where
  "cumulative_text stmt tables flds table =
     order_text stmt flds table
       ((if is_single flds then rebuilt_text flds table else id)
          (star_text flds table (remap_text tables stmt)))"

subsection \<open>The words a pattern accepts\<close>

text \<open>
  \<open>accepts r pre w post\<close>: the pattern \<open>r\<close> can consume the word \<open>w\<close> when \<open>pre\<close>
  (reversed) stands before it and \<open>post\<close> after it. The matcher is sound and complete
  for it; which of the accepted words the matcher takes is a matter of its order of
  preference.
\<close>

fun accepts :: "regex \<Rightarrow> string \<Rightarrow> string \<Rightarrow> string \<Rightarrow> bool" where
  "accepts Eps pre w post = (w = [])"
| "accepts (Atom a) pre w post = (case w of [c] \<Rightarrow> atom_ok a c | _ \<Rightarrow> False)"
| "accepts (Seq r1 r2) pre w post =
     (\<exists>u v. w = u @ v \<and> accepts r1 pre u (v @ post) \<and> accepts r2 (rev u @ pre) v post)"
| "accepts (Alt r1 r2) pre w post = (accepts r1 pre w post \<or> accepts r2 pre w post)"
| "accepts (Rep g n a) pre w post = (n \<le> length w \<and> list_all (atom_ok a) w)"
| "accepts (Group i r) pre w post = accepts r pre w post"
| "accepts WordB pre w post = (w = [] \<and> is_boundary pre post)"
| "accepts Eol pre w post = (w = [] \<and> (post = [] \<or> post = [CHR 0x0A]))"

text \<open>Every character a pattern can consume satisfies \<open>P\<close>.\<close>

fun chars_within :: "regex \<Rightarrow> (char \<Rightarrow> bool) \<Rightarrow> bool" where
  "chars_within Eps P = True"
| "chars_within (Atom a) P = (\<forall>c. atom_ok a c \<longrightarrow> P c)"
| "chars_within (Seq r1 r2) P = (chars_within r1 P \<and> chars_within r2 P)"
| "chars_within (Alt r1 r2) P = (chars_within r1 P \<and> chars_within r2 P)"
| "chars_within (Rep g n a) P = (\<forall>c. atom_ok a c \<longrightarrow> P c)"
| "chars_within (Group i r) P = chars_within r P"
| "chars_within WordB P = True"
| "chars_within Eol P = True"



text \<open>
  The pattern of \<^verbatim>\<open>ORDER BY\<close> is \<^verbatim>\<open>order\s+by\s+\<close> followed by its group; \<open>ob_at x\<close>
  says that a word of the pattern starts the text \<open>x\<close>.
\<close>

definition order_front :: "regex list" where
  "order_front = [lits ''order'', Rep True 1 space_char, lits ''by'', Rep True 1 space_char]"



text \<open>
  The pattern of a statement is \<^verbatim>\<open>select[\s\S]+?from\s+\<close>, then the group of the table
  name, \<^verbatim>\<open>[\s\S]*?\<close> and the period; \<open>select_front\<close> is the part before the table name.
\<close>

definition select_front :: "regex list" where
  "select_front = [lits ''select'', Rep False 1 any_char, lits ''from'', Rep True 1 space_char]"

section \<open>The matcher and the accepted words\<close>

subsection \<open>Soundness: what the matcher consumes is accepted\<close>

lemma rep_greedy_sound:
  "rep_greedy p n pre post k = Some res \<Longrightarrow>
     \<exists>w post'. post = w @ post' \<and> n \<le> length w \<and> list_all p w \<and> k (rev w @ pre) post' = Some res"
proof (induction post arbitrary: n pre)
  case Nil
  then show ?case by (auto split: if_splits)
next
  case (Cons c cs)
  show ?case
  proof (cases "p c \<and> rep_greedy p (n - 1) (c # pre) cs k = Some res")
    case True
    with Cons.IH [of "n - 1" "c # pre"] obtain w post'
      where "cs = w @ post'" "n - 1 \<le> length w" "list_all p w" "k (rev w @ c # pre) post' = Some res"
      by blast
    with True show ?thesis
      by - (rule exI [of _ "c # w"], rule exI [of _ post'], auto)
  next
    case False
    with Cons.prems have "n = 0 \<and> k pre (c # cs) = Some res"
      by (auto split: if_splits option.splits)
    then show ?thesis
      by - (rule exI [of _ "[]"], rule exI [of _ "c # cs"], simp)
  qed
qed

lemma rep_lazy_sound:
  "rep_lazy p n pre post k = Some res \<Longrightarrow>
     \<exists>w post'. post = w @ post' \<and> n \<le> length w \<and> list_all p w \<and> k (rev w @ pre) post' = Some res"
proof (induction post arbitrary: n pre)
  case Nil
  then show ?case by (auto split: if_splits)
next
  case (Cons c cs)
  show ?case
  proof (cases "n = 0 \<and> k pre (c # cs) = Some res")
    case True
    then show ?thesis
      by - (rule exI [of _ "[]"], rule exI [of _ "c # cs"], simp)
  next
    case False
    with Cons.prems have pc: "p c \<and> rep_lazy p (n - 1) (c # pre) cs k = Some res"
      by (auto split: if_splits option.splits)
    with Cons.IH [of "n - 1" "c # pre"] obtain w post'
      where "cs = w @ post'" "n - 1 \<le> length w" "list_all p w" "k (rev w @ c # pre) post' = Some res"
      by blast
    with pc show ?thesis
      by - (rule exI [of _ "c # w"], rule exI [of _ post'], auto)
  qed
qed

lemma rmatch_sound:
  "rmatch r (pre, post, caps) k = Some res \<Longrightarrow>
     \<exists>w post' caps'. post = w @ post' \<and> accepts r pre w post' \<and> k (rev w @ pre, post', caps') = Some res"
proof (induction r arbitrary: pre post caps k res)
  case Eps
  then show ?case by - (rule exI [of _ "[]"], auto)
next
  case (Atom a)
  show ?case
  proof (cases post)
    case Nil
    with Atom show ?thesis by simp
  next
    case (Cons c cs)
    with Atom have "atom_ok a c" "k (c # pre, cs, caps) = Some res"
      by (auto split: if_splits)
    with Cons show ?thesis
      by - (rule exI [of _ "[c]"], rule exI [of _ cs], auto)
  qed
next
  case (Seq r1 r2)
  from Seq.prems have "rmatch r1 (pre, post, caps) (\<lambda>st'. rmatch r2 st' k) = Some res" by simp
  from Seq.IH(1) [OF this] obtain u post1 caps1
    where u: "post = u @ post1" "accepts r1 pre u post1"
      and "rmatch r2 (rev u @ pre, post1, caps1) k = Some res" by blast
  from Seq.IH(2) [OF this(3)] obtain v post2 caps2
    where v: "post1 = v @ post2" "accepts r2 (rev u @ pre) v post2"
      and "k (rev v @ rev u @ pre, post2, caps2) = Some res" by blast
  with u show ?case
    by - (rule exI [of _ "u @ v"], rule exI [of _ post2], rule exI [of _ caps2], auto)
next
  case (Alt r1 r2)
  from Alt.prems have "rmatch r1 (pre, post, caps) k = Some res \<or> rmatch r2 (pre, post, caps) k = Some res"
    by (auto split: option.splits)
  then show ?case
    using Alt.IH by (metis accepts.simps(4))
next
  case (Rep g n a)
  from Rep have "\<exists>w post'. post = w @ post' \<and> n \<le> length w \<and> list_all (atom_ok a) w
      \<and> k (rev w @ pre, post', caps) = Some res"
    by (cases g) (auto dest: rep_greedy_sound rep_lazy_sound)
  then show ?case by auto
next
  case (Group i r)
  from Group.prems have "rmatch r (pre, post, caps)
       (\<lambda>(pre', post', caps'). k (pre', post', (i, captured pre pre') # caps')) = Some res"
    by simp
  from Group.IH [OF this] show ?case by auto
next
  case WordB
  then show ?case by - (rule exI [of _ "[]"], auto split: if_splits)
next
  case Eol
  then show ?case by - (rule exI [of _ "[]"], auto split: if_splits)
qed

subsection \<open>Completeness: an accepted word before a willing continuation is matched\<close>




subsection \<open>Properties of the accepted words\<close>

lemma accepts_chars_within:
  "chars_within r P \<Longrightarrow> accepts r pre w post \<Longrightarrow> list_all P w"
proof (induction r arbitrary: pre w post)
  case (Atom a)
  then show ?case by (auto split: list.splits)
next
  case (Rep g n a)
  then show ?case by (auto simp: list_all_iff)
qed auto



subsection \<open>A greedy repetition before a continuation that cannot fail\<close>


lemma rmatch_Eps: "rmatch Eps st k = k st"
  by (cases st) simp

lemma rmatch_Seq: "rmatch (Seq r1 r2) st k = rmatch r1 st (\<lambda>st'. rmatch r2 st' k)"
  by (cases st) simp

lemma rmatch_foldr_Seq:
  "rmatch (foldr Seq rs x) st k = rmatch (foldr Seq rs Eps) st (\<lambda>st'. rmatch x st' k)"
proof (induction rs arbitrary: st k)
  case Nil
  then show ?case by (simp add: rmatch_Eps)
next
  case (Cons r rs)
  show ?case
    by (simp add: rmatch_Seq Cons [of _ k])
qed

lemma rmatch_seqs_snoc:
  "rmatch (seqs (rs @ [r])) st k = rmatch (seqs rs) st (\<lambda>st'. rmatch r st' k)"
  using rmatch_foldr_Seq [of rs "Seq r Eps" st k]
  by (simp add: seqs_def rmatch_Seq rmatch_Eps)

lemma captured_append: "captured pre (rev w @ pre) = w"
  by (simp add: captured_def)

subsection \<open>The pattern of \<^verbatim>\<open>ORDER BY\<close>\<close>


lemma set_bit5_True_eq: "set_bit5 True c = e \<Longrightarrow> c = e \<or> c = set_bit5 False e"
  by (cases c; cases e) (auto simp: set_bit5_def)

lemma lit_within:
  assumes "atom_ok (Lit d) c" and "P (lower_char d)" and "P (set_bit5 False (lower_char d))"
  shows "P c"
proof (cases "is_upper_char c")
  case True
  with assms(1) have "set_bit5 True c = lower_char d" by (simp add: lower_char_def)
  from set_bit5_True_eq [OF this] assms(2,3) show ?thesis by auto
next
  case False
  with assms(1) have "c = lower_char d" by (simp add: lower_char_def)
  with assms(2) show ?thesis by simp
qed

lemma order_letters:
  "\<forall>d\<in>set ''orderby''. atom_ok order_char (lower_char d)
      \<and> atom_ok order_char (set_bit5 False (lower_char d))"
  by code_simp

lemma order_letter_within:
  "d \<in> set ''orderby'' \<Longrightarrow> atom_ok (Lit d) c \<Longrightarrow> atom_ok order_char c"
  using order_letters by (blast intro: lit_within)

lemma space_within_order: "atom_ok space_char c \<Longrightarrow> atom_ok order_char c"
  by (auto simp: space_char_def order_char_def cls_ok_def)

lemma order_front_within: "chars_within (seqs order_front) (atom_ok order_char)"
  by (auto simp: order_front_def seqs_def lits_def intro: order_letter_within space_within_order)

lemma order_pattern_within: "chars_within order_by_pattern (atom_ok order_char)"
  using order_front_within
  by (simp add: order_by_pattern_def order_front_def seqs_def)









lemma try_order_text_chars:
  assumes "try_at order_by_pattern False pre x = Some m"
  shows "list_all (atom_ok order_char) (m_text m)"
proof -
  from rmatch_sound [OF assms [unfolded try_at_def]]
  obtain w post' caps' where "accepts order_by_pattern pre w post'"
    and "m_text m = captured pre (rev w @ pre)" by auto
  with accepts_chars_within [OF order_pattern_within] show ?thesis
    by (simp add: captured_append)
qed

subsection \<open>Removing every \<^verbatim>\<open>ORDER BY\<close> leaves none\<close>






section \<open>The blocks of the loop body\<close>

lemma fst_order_step_mono: "set (fst w) \<subseteq> set (fst (order_step stmt flds table w))"
  by (cases w) (auto simp: order_step_def split: option.splits)

lemma is_star_star: "is_star ''*''"
  by (simp add: is_star_def)

lemma not_single_star: "\<not> is_single ''*''"
  by code_simp

lemma sublist_join: "m \<in> set ms \<Longrightarrow> sublist m (join sep ms)"
proof (induction sep ms rule: join.induct)
  case (1 sep)
  then show ?case by simp
next
  case (2 sep p)
  then show ?case by simp
next
  case (3 sep p q ps)
  show ?case
  proof (cases "m = p")
    case True
    then show ?thesis by (simp add: sublist_append_rightI)
  next
    case False
    with 3 have "sublist m (join sep (q # ps))" by simp
    then show ?thesis by (auto simp: sublist_append)
  qed
qed




lemma replace_from_absent:
  "\<not> contains s old \<Longrightarrow> replace_from old new 0 s = s"
  by (induction s) auto

lemma lower_distinct: "lower ''distinct'' = ''distinct''"
  by code_simp

lemma startswith_lower: "startswith s p \<Longrightarrow> startswith (lower s) (lower p)"
  unfolding startswith_def lower_def
  by (metis length_map take_map)

lemma contains_lower: "contains s p \<Longrightarrow> contains (lower s) (lower p)"
proof (induction s)
  case Nil
  then show ?case by (simp add: lower_def)
next
  case (Cons c cs)
  from Cons.prems have "startswith (c # cs) p \<or> contains cs p" by simp
  then show ?case
  proof
    assume "startswith (c # cs) p"
    from startswith_lower [OF this] show ?thesis by (simp add: lower_def)
  next
    assume "contains cs p"
    from Cons.IH [OF this] show ?thesis by (simp add: lower_def)
  qed
qed

lemma field_name_list_plain:
  assumes "\<not> contains (lower flds) ''distinct''"
  shows "field_name_list flds = map strip (filter (\<lambda>x. strip x \<noteq> []) (split_on CHR '','' flds))"
proof -
  from assms contains_lower [of flds "''distinct''"] have "\<not> contains flds ''distinct''"
    by (auto simp only: lower_distinct)
  then have "replace flds ''distinct'' [] = flds"
    unfolding replace_def by (rule replace_from_absent)
  then show ?thesis by (simp only: field_name_list_def)
qed

text \<open>The statement to which only the last branch of the ordering policy applies.\<close>

lemma order_by_appended_stmt:
  assumes "stmt = strip orig_stmt"
      and "flds = sel_fields stmt"
      and "names = join '', '' (map strip (filter (\<lambda>x. strip x \<noteq> []) (split_on CHR '','' flds)))"
      and "tables_to_replace stmt main_table = []"
      and "\<not> is_star flds" and "\<not> is_single flds"
      and "\<not> contains (lower flds) ''distinct''"
      and "names \<noteq> []" and "names \<noteq> ''<field_list>''"
      and "\<not> fae_present stmt" and "order_by_match stmt = None"
  shows "analyze_stmt orig_stmt main_table =
           Some \<lparr>suggestion = ''For deterministic results, add `ORDER BY '' @ names @ ''` to the SELECT statement.'',
                 snippet = stmt,
                 adjusted_code = strip (rstrip_dot stmt) @ '' ORDER BY '' @ names @ ''.''\<rparr>"
proof -
  have "sort_fields flds (adjusted_main_table [] main_table) = names"
    using assms by (simp add: sort_fields_def explicit_fields_def field_name_list_plain)
  with assms show ?thesis
    by (simp add: analyze_stmt_def analyze_stripped_def analyze_tables_def apply_rules_def
        replace_tables_def order_step_def)
qed


lemma truncate_analyze_unit: "unit.truncate (analyze_unit u) = u"
  by (simp add: analyze_unit_def unit.truncate_def unit.extend_def)

lemma issues_analyze_unit:
  "issues (analyze_unit u) = issues_of (analyze_and_suggest (code_or_empty u))"
  by (simp add: analyze_unit_def unit.extend_def unit_with_suggestion.fields_def)

section \<open>The statements the engine extracts\<close>

lemma select_full_pattern_split:
  "select_full_pattern =
     Group 1 (seqs (((select_front @ [Group 2 (Rep True 1 word_char)]) @ [Rep False 0 any_char])
                    @ [Atom (Lit CHR ''.'')]))"
  by (simp only: select_full_pattern_def select_front_def, simp only: append.simps)

lemma finditer_from_Nil:
  "m \<in> set (finditer_from r pre [] skip) \<Longrightarrow> try_at r False pre [] = Some m"
  apply (subst (asm) finditer_from.simps(1))
  apply (cases "skip = 0")
   apply (cases "try_at r False pre []")
  apply simp_all
  done

lemma finditer_from_Cons:
  "m \<in> set (finditer_from r pre (c # cs) skip) \<Longrightarrow>
     (\<exists>k. m \<in> set (finditer_from r (c # pre) cs k))
      \<or> try_at r False pre (c # cs) = Some m \<or> try_at r True pre (c # cs) = Some m"
  apply (subst (asm) finditer_from.simps(2))
  apply (cases "0 < skip"; cases "try_at r False pre (c # cs)"; cases "try_at r True pre (c # cs)")
  apply (auto split: if_splits)
  done

text \<open>Every match that \<^verbatim>\<open>finditer\<close> yields is the result of one attempt at one position.\<close>

lemma finditer_from_try:
  "m \<in> set (finditer_from r pre post skip) \<Longrightarrow> \<exists>adv pre' post'. try_at r adv pre' post' = Some m"
proof (induction post arbitrary: pre skip)
  case Nil
  from finditer_from_Nil [OF Nil] show ?case by blast
next
  case (Cons c cs)
  from finditer_from_Cons [OF Cons.prems] Cons.IH show ?case by blast
qed

text \<open>
  A lazy repetition before a character test stops at the first character that passes
  the test, when what follows the test accepts everything.
\<close>

lemma rep_lazy_first:
  assumes "\<And>pre' post'. length pre < length pre' \<Longrightarrow> K pre' post' \<noteq> None"
      and "rep_lazy p 0 pre post
             (\<lambda>pre' post'. case post' of [] \<Rightarrow> None
                | c # cs \<Rightarrow> if q c then K (c # pre') cs else None) = Some res"
  shows "\<exists>mid c rest. post = mid @ c # rest \<and> q c \<and> (\<forall>x\<in>set mid. \<not> q x)
            \<and> K (c # rev mid @ pre) rest = Some res"
  using assms
proof (induction post arbitrary: pre)
  case Nil
  then show ?case by simp
next
  case (Cons c cs)
  show ?case
  proof (cases "q c")
    case True
    with Cons.prems(1) [of "c # pre" cs] Cons.prems(2) have "K (c # pre) cs = Some res"
      by (auto split: option.splits)
    with True show ?thesis
      by - (rule exI [of _ "[]"], rule exI [of _ c], rule exI [of _ cs], simp)
  next
    case False
    with Cons.prems(2) have l: "rep_lazy p 0 (c # pre) cs
             (\<lambda>pre' post'. case post' of [] \<Rightarrow> None
                | c # cs \<Rightarrow> if q c then K (c # pre') cs else None) = Some res"
      by (auto split: if_splits)
    have "\<And>pre' post'. length (c # pre) < length pre' \<Longrightarrow> K pre' post' \<noteq> None"
      using Cons.prems(1) by simp
    from Cons.IH [OF this l] obtain mid d rest where
      "cs = mid @ d # rest" "q d" "\<forall>x\<in>set mid. \<not> q x" "K (d # rev mid @ c # pre) rest = Some res"
      by blast
    with False show ?thesis
      by - (rule exI [of _ "c # mid"], rule exI [of _ d], rule exI [of _ rest], simp)
  qed
qed

lemma lit_dot: "atom_ok (Lit CHR ''.'') c \<longleftrightarrow> c = CHR ''.''"
proof
  assume a: "atom_ok (Lit CHR ''.'') c"
  have l: "lower_char CHR ''.'' = CHR ''.''" by code_simp
  have n1: "\<not> is_upper_char CHR ''.''" by code_simp
  have n2: "\<not> is_upper_char (set_bit5 False CHR ''.'')" by code_simp
  show "c = CHR ''.''"
  proof (cases "is_upper_char c")
    case True
    with a l have "set_bit5 True c = CHR ''.''" by (simp add: lower_char_def)
    from set_bit5_True_eq [OF this] True n1 n2 show ?thesis by auto
  next
    case False
    with a l show ?thesis by (simp add: lower_char_def)
  qed
next
  assume "c = CHR ''.''"
  then show "atom_ok (Lit CHR ''.'') c" by simp
qed

lemma accepts_lit:
  "accepts (Atom (Lit d)) pre a post \<Longrightarrow> \<exists>c. a = [c] \<and> atom_ok (Lit d) c"
  by (cases a) (auto split: list.splits)

lemma select_front_hd:
  assumes "accepts (seqs select_front) pre u post"
  shows "\<exists>c u'. u = c # u' \<and> atom_ok (Lit CHR ''s'') c"
proof -
  have "seqs select_front =
          Seq (Seq (Atom (Lit CHR ''s'')) (lits ''elect'')) (seqs (tl select_front))"
    by (simp add: select_front_def seqs_def lits_def)
  with assms obtain a b v where u: "u = (a @ b) @ v"
    and a: "accepts (Atom (Lit CHR ''s'')) pre a (b @ v @ post)"
    by (auto simp del: atom_ok.simps)
  from accepts_lit [OF a] u show ?thesis by auto
qed

text \<open>
  A match of the statement pattern: a word of \<open>select_front\<close>, the table name, a text
  without a period, and the period. Group 1 is the whole match, group 2 the table name.
\<close>

lemma try_select:
  assumes "try_at select_full_pattern adv pre post = Some m"
  shows "\<exists>u v mid. m_text m = u @ v @ mid @ ''.''
           \<and> (\<exists>c u'. u = c # u' \<and> atom_ok (Lit CHR ''s'') c)
           \<and> v \<noteq> [] \<and> list_all (atom_ok word_char) v \<and> CHR ''.'' \<notin> set mid
           \<and> group_str m 1 = m_text m \<and> group_str m 2 = v"
proof -
  let ?kfin = "\<lambda>(pre', post', caps').
       if adv \<and> length pre' = length pre then None
       else Some \<lparr>m_start = length pre, m_text = captured pre pre', m_caps = caps'\<rparr>"
  let ?K1 = "\<lambda>(pre', post', caps'). ?kfin (pre', post', (1, captured pre pre') # caps')"
  let ?G2 = "Group 2 (Rep True 1 word_char)"
  from assms have "rmatch (seqs select_front) (pre, post, [])
      (\<lambda>s1. rmatch ?G2 s1 (\<lambda>s2. rmatch (Rep False 0 any_char) s2
         (\<lambda>s3. rmatch (Atom (Lit CHR ''.'')) s3 ?K1))) = Some m"
    by (simp only: try_at_def select_full_pattern_split rmatch.simps(6) rmatch_seqs_snoc)
  from rmatch_sound [OF this] obtain u post1 caps1 where post: "post = u @ post1"
    and u: "accepts (seqs select_front) pre u post1"
    and g2: "rmatch ?G2 (rev u @ pre, post1, caps1) (\<lambda>s2. rmatch (Rep False 0 any_char) s2
         (\<lambda>s3. rmatch (Atom (Lit CHR ''.'')) s3 ?K1)) = Some m" by blast
  from g2 have "rep_greedy (atom_ok word_char) 1 (rev u @ pre) post1
      (\<lambda>pre' post'. rmatch (Rep False 0 any_char)
          (pre', post', (2, captured (rev u @ pre) pre') # caps1)
          (\<lambda>s3. rmatch (Atom (Lit CHR ''.'')) s3 ?K1)) = Some m"
    by (simp del: atom_ok.simps)
  from rep_greedy_sound [OF this] obtain v post2 where post1: "post1 = v @ post2"
    and v: "1 \<le> length v" "list_all (atom_ok word_char) v"
    and lz: "rmatch (Rep False 0 any_char)
          (rev v @ rev u @ pre, post2, (2, captured (rev u @ pre) (rev v @ rev u @ pre)) # caps1)
          (\<lambda>s3. rmatch (Atom (Lit CHR ''.'')) s3 ?K1) = Some m" by blast
  let ?caps2 = "(2, v) # caps1"
  let ?K = "\<lambda>pre' post'. ?K1 (pre', post', ?caps2)"
  from lz have "rep_lazy (atom_ok any_char) 0 (rev v @ rev u @ pre) post2
       (\<lambda>pre' post'. case post' of [] \<Rightarrow> None
          | c # cs \<Rightarrow> if atom_ok (Lit CHR ''.'') c then ?K (c # pre') cs else None) = Some m"
    by (simp add: captured_append del: atom_ok.simps cong: list.case_cong if_cong)
  moreover have "\<And>pre' post'. length (rev v @ rev u @ pre) < length pre' \<Longrightarrow> ?K pre' post' \<noteq> None"
    by auto
  ultimately obtain mid c rest where post2: "post2 = mid @ c # rest"
    and c: "atom_ok (Lit CHR ''.'') c" and mid: "\<forall>x\<in>set mid. \<not> atom_ok (Lit CHR ''.'') x"
    and m: "?K (c # rev mid @ rev v @ rev u @ pre) rest = Some m"
    using rep_lazy_first [of "rev v @ rev u @ pre" ?K "atom_ok any_char" post2 "atom_ok (Lit CHR ''.'')" m]
    by blast
  from c have cd: "c = CHR ''.''" by (simp only: lit_dot)
  have w: "c # rev mid @ rev v @ rev u @ pre = rev (u @ v @ mid @ ''.'') @ pre"
    by (simp add: cd)
  from m have mt: "m_text m = captured pre (c # rev mid @ rev v @ rev u @ pre)"
    and mc: "m_caps m = (1, captured pre (c # rev mid @ rev v @ rev u @ pre)) # ?caps2"
    by (auto split: if_splits)
  from mt have t: "m_text m = u @ v @ mid @ ''.''"
    unfolding w by (simp only: captured_append)
  from mc have caps: "m_caps m = (1, u @ v @ mid @ ''.'') # (2, v) # caps1"
    unfolding w by (simp only: captured_append)
  have g1: "group_str m 1 = m_text m" and gv: "group_str m 2 = v"
    by (simp_all add: group_str_def group_def caps t)
  have "CHR ''.'' \<notin> set mid" using mid lit_dot by blast
  with t select_front_hd [OF u] v g1 gv show ?thesis
    by (metis le_zero_eq length_0_conv not_one_le_zero)
qed

lemma strip_id: "s \<noteq> [] \<Longrightarrow> \<not> is_space (hd s) \<Longrightarrow> \<not> is_space (last s) \<Longrightarrow> strip s = s"
proof -
  assume s: "s \<noteq> []" and h: "\<not> is_space (hd s)" and l: "\<not> is_space (last s)"
  from s h have "dropWhile is_space s = s" by (cases s) auto
  moreover from s l have "dropWhile is_space (rev s) = rev s"
    by (cases "rev s") (auto simp: last_rev [symmetric] simp del: last_rev)
  ultimately show ?thesis by (simp add: strip_def lstrip_def rstrip_def)
qed

lemma lit_s_not_space: "atom_ok (Lit CHR ''s'') c \<Longrightarrow> \<not> is_space c"
proof (rule lit_within [where P = "\<lambda>c. \<not> is_space c"])
  show "\<not> is_space (lower_char CHR ''s'')" by code_simp
  show "\<not> is_space (set_bit5 False (lower_char CHR ''s''))" by code_simp
qed

lemma word_char_not_dot: "atom_ok word_char c \<Longrightarrow> c \<noteq> CHR ''.''"
proof
  assume "atom_ok word_char c" and "c = CHR ''.''"
  then have "atom_ok word_char CHR ''.''" by simp
  moreover have "\<not> atom_ok word_char CHR ''.''" by code_simp
  ultimately show False by simp
qed

lemma rstrip_dot_snoc:
  "body = [] \<or> last body \<noteq> CHR ''.'' \<Longrightarrow> rstrip_dot (body @ ''.'') = body"
  by (cases "rev body") (auto simp: rstrip_dot_def last_rev [symmetric] simp del: last_rev)

lemma lstrip_id: "s \<noteq> [] \<Longrightarrow> \<not> is_space (hd s) \<Longrightarrow> lstrip s = s"
  by (cases s) (auto simp: lstrip_def)

text \<open>
  An extracted statement begins with the s of \<^verbatim>\<open>select\<close> and ends with its only period:
  \<^verbatim>\<open>strip\<close> leaves it as it is, and \<^verbatim>\<open>rstrip('.')\<close> takes exactly the last character.
\<close>

lemma statements_shape:
  assumes "(orig_stmt, main_table) \<in> set (statements src)"
  shows "orig_stmt \<noteq> [] \<and> last orig_stmt = CHR ''.''
         \<and> strip orig_stmt = orig_stmt
         \<and> rstrip_dot orig_stmt = butlast orig_stmt
         \<and> strip (butlast orig_stmt) = rstrip (butlast orig_stmt)"
proof -
  from assms obtain m where m: "m \<in> set (finditer select_full_pattern src)"
    and o: "orig_stmt = group_str m 1"
    by (auto simp: statements_def)
  from m obtain adv pre post where "try_at select_full_pattern adv pre post = Some m"
    unfolding finditer_def by (blast dest: finditer_from_try)
  from try_select [OF this] o obtain u v mid c u' where
    w: "orig_stmt = u @ v @ mid @ ''.''" and u: "u = c # u'" and c: "atom_ok (Lit CHR ''s'') c"
    and v: "v \<noteq> []" "list_all (atom_ok word_char) v" and mid: "CHR ''.'' \<notin> set mid"
    by auto
  let ?body = "u @ v @ mid"
  have b: "orig_stmt = ?body @ ''.''" by (simp add: w)
  have bne: "?body \<noteq> []" by (simp add: u)
  have hb: "hd ?body = c" by (simp add: u)
  have "last v \<noteq> CHR ''.''"
    using v word_char_not_dot [of "last v"] by (auto simp: list_all_iff)
  moreover have "mid \<noteq> [] \<Longrightarrow> last mid \<noteq> CHR ''.''"
    using mid last_in_set [of mid] by metis
  ultimately have lb: "last ?body \<noteq> CHR ''.''" using v by (cases "mid = []") simp_all
  have ns: "\<not> is_space CHR ''.''" by code_simp
  have "hd orig_stmt = c" by (simp add: w u)
  then have "strip orig_stmt = orig_stmt"
    using lit_s_not_space [OF c] ns by (intro strip_id) (simp_all add: b)
  moreover have "rstrip_dot orig_stmt = butlast orig_stmt"
    unfolding b using lb by (simp add: rstrip_dot_snoc del: append_assoc)
  moreover have "strip (butlast orig_stmt) = rstrip (butlast orig_stmt)"
    unfolding b using lstrip_id [OF bne] hb lit_s_not_space [OF c]
    by (simp add: strip_def del: append_assoc)
  ultimately show ?thesis by (simp add: b)
qed

text \<open>
  The loop over the statements: the issues of a source text are the issues of its
  statements, in their order.
\<close>

lemma fold_loop_body:
  "fold loop_body sts (acc, b) =
     (acc @ List.map_filter (\<lambda>(orig_stmt, main_table). analyze_stmt orig_stmt main_table) sts,
      b \<or> (\<exists>(orig_stmt, main_table) \<in> set sts. analyze_stmt orig_stmt main_table \<noteq> None))"
proof (induction sts arbitrary: acc b)
  case Nil
  then show ?case by (simp add: List.map_filter_simps)
next
  case (Cons st sts)
  obtain orig_stmt main_table where st: "st = (orig_stmt, main_table)" by (cases st)
  show ?case
    by (cases "analyze_stmt orig_stmt main_table")
       (simp_all add: st Cons.IH List.map_filter_simps)
qed

lemma issues_of_statements:
  "issues_of (analyze_and_suggest src) =
     List.map_filter (\<lambda>(orig_stmt, main_table). analyze_stmt orig_stmt main_table) (statements src)"
proof (cases "\<exists>(orig_stmt, main_table) \<in> set (statements src). analyze_stmt orig_stmt main_table \<noteq> None")
  case True
  then show ?thesis
    by (simp add: analyze_and_suggest_def fold_loop_body issues_of_def)
next
  case False
  then have "List.map_filter (\<lambda>(orig_stmt, main_table). analyze_stmt orig_stmt main_table)
               (statements src) = []"
    by (auto simp: List.map_filter_def filter_empty_conv)
  with False show ?thesis
    by (simp add: analyze_and_suggest_def fold_loop_body issues_of_def)
qed

lemma issue_of_statement:
  assumes "(orig_stmt, main_table) \<in> set (statements src)"
      and "analyze_stmt orig_stmt main_table = Some i"
  shows "i \<in> set (issues_of (analyze_and_suggest src))"
proof -
  from assms have "i \<in> (\<lambda>x. the (case x of (orig_stmt, main_table) \<Rightarrow> analyze_stmt orig_stmt main_table))
          ` {x \<in> set (statements src).
               (case x of (orig_stmt, main_table) \<Rightarrow> analyze_stmt orig_stmt main_table) \<noteq> None}"
    by force
  then show ?thesis
    by (simp add: issues_of_statements List.map_filter_def)
qed


section \<open>The two tables\<close>



lemma suggested_not_placeholder: "suggested table \<noteq> ''<field_list>''"
proof -
  have "\<forall>fs \<in> set (map snd SUGGESTED_FIELDS). join '', '' fs \<noteq> ''<field_list>''"
    by code_simp
  moreover have "join '', '' [] \<noteq> ''<field_list>''" by simp
  ultimately show ?thesis
    unfolding suggested_def
    by (cases "map_of SUGGESTED_FIELDS table") (auto dest!: map_of_SomeD)
qed

section \<open>Evaluation on concrete source texts\<close>

lemma eval_marc_wildcard:
  "analyze_and_suggest ''SELECT * FROM MARC WHERE WERKS = '1000'.'' =
     Some [\<lparr>suggestion = ''Use replacement table `NSDM_V_MARC` instead of `MARC`. Avoid `SELECT *`. Use only these fields: MATNR, WERKS. For deterministic results, add `ORDER BY MATNR, WERKS` to the SELECT statement.'',
            snippet = ''SELECT * FROM MARC WHERE WERKS = '1000'.'',
            adjusted_code = ''SELECT MATNR, WERKS FROM NSDM_V_MARC WHERE WERKS = '1000' ORDER BY MATNR, WERKS.''\<rparr>]"
  by code_simp

lemma eval_marc_wildcard_stmt:
  "analyze_stmt ''SELECT * FROM MARC WHERE WERKS = '1000'.'' ''MARC'' =
     Some \<lparr>suggestion = ''Use replacement table `NSDM_V_MARC` instead of `MARC`. Avoid `SELECT *`. Use only these fields: MATNR, WERKS. For deterministic results, add `ORDER BY MATNR, WERKS` to the SELECT statement.'',
           snippet = ''SELECT * FROM MARC WHERE WERKS = '1000'.'',
           adjusted_code = ''SELECT MATNR, WERKS FROM NSDM_V_MARC WHERE WERKS = '1000' ORDER BY MATNR, WERKS.''\<rparr>"
  by code_simp

section \<open>The claims\<close>

text \<open>
  C1, as stated: for the source text \<^verbatim>\<open>SELECT * FROM MARC WHERE WERKS = '1000'.\<close> the
  one issue has the adjusted code
  \<^verbatim>\<open>SELECT MATNR, WERKS FROM NSDM_V_MARC WHERE WERKS = '1000'. ORDER BY MATNR, WERKS.\<close>
  The code does not produce this text: line 174 takes the period off before line 175
  appends the \<^verbatim>\<open>ORDER BY\<close>.
\<close>

theorem C1_counterexample:
  "map_option (map adjusted_code) (analyze_and_suggest ''SELECT * FROM MARC WHERE WERKS = '1000'.'')
     \<noteq> Some [''SELECT MATNR, WERKS FROM NSDM_V_MARC WHERE WERKS = '1000'. ORDER BY MATNR, WERKS.'']"
  by (simp add: eval_marc_wildcard)

text \<open>
  C1, amended: for the source text \<^verbatim>\<open>SELECT * FROM MARC WHERE WERKS = '1000'.\<close> the engine
  produces exactly one issue; its suggestion names the replacement table
  \<^verbatim>\<open>NSDM_V_MARC\<close> and the fields \<^verbatim>\<open>MATNR, WERKS\<close>, and its adjusted code is
  \<^verbatim>\<open>SELECT MATNR, WERKS FROM NSDM_V_MARC WHERE WERKS = '1000' ORDER BY MATNR, WERKS.\<close>,
  with one period, at the end.
\<close>

theorem C1_marc_wildcard:
  "analyze_and_suggest ''SELECT * FROM MARC WHERE WERKS = '1000'.'' =
     Some [\<lparr>suggestion = ''Use replacement table `NSDM_V_MARC` instead of `MARC`. Avoid `SELECT *`. Use only these fields: MATNR, WERKS. For deterministic results, add `ORDER BY MATNR, WERKS` to the SELECT statement.'',
            snippet = ''SELECT * FROM MARC WHERE WERKS = '1000'.'',
            adjusted_code = ''SELECT MATNR, WERKS FROM NSDM_V_MARC WHERE WERKS = '1000' ORDER BY MATNR, WERKS.''\<rparr>]"
  by (rule eval_marc_wildcard)

text \<open>
  C2: the adjusted code of an issue reflects every rewrite applied in sequence, each
  later rewrite working on the output of the earlier ones, that is, it is
  \<open>cumulative_text\<close>. The code does otherwise for a single-row statement. At
  \<^verbatim>\<open>SELECT SINGLE MATNR FROM MARC WHERE MARC~WERKS = '1'.\<close> table remapping (line 79)
  rewrites the qualifier \<^verbatim>\<open>MARC~\<close> to \<^verbatim>\<open>NSDM_V_MARC~\<close>; lines 137 to 142 then build the
  statement anew with the WHERE clause of the original text, and the adjusted code has
  \<^verbatim>\<open>FROM NSDM_V_MARC WHERE MARC~WERKS\<close>. The same statement without \<^verbatim>\<open>SINGLE\<close> keeps the
  rewritten qualifier.
\<close>

theorem C2_single_row_rebuild_drops_rewrite:
  "remap_text (tables_to_replace ''SELECT SINGLE MATNR FROM MARC WHERE MARC~WERKS = '1'.'' ''MARC'')
       ''SELECT SINGLE MATNR FROM MARC WHERE MARC~WERKS = '1'.''
     = ''SELECT SINGLE MATNR FROM NSDM_V_MARC WHERE NSDM_V_MARC~WERKS = '1'.''
   \<and> cumulative_text ''SELECT SINGLE MATNR FROM MARC WHERE MARC~WERKS = '1'.''
         (tables_to_replace ''SELECT SINGLE MATNR FROM MARC WHERE MARC~WERKS = '1'.'' ''MARC'')
         (sel_fields ''SELECT SINGLE MATNR FROM MARC WHERE MARC~WERKS = '1'.'')
         ''NSDM_V_MARC''
     = ''SELECT MATNR FROM NSDM_V_MARC WHERE NSDM_V_MARC~WERKS = '1' UP TO 1 ROWS ORDER BY MATNR. ENDSELECT.''
   \<and> map_option (map adjusted_code)
         (analyze_and_suggest ''SELECT SINGLE MATNR FROM MARC WHERE MARC~WERKS = '1'.'')
     = Some [''SELECT MATNR FROM NSDM_V_MARC WHERE MARC~WERKS = '1' UP TO 1 ROWS ORDER BY MATNR. ENDSELECT.'']
   \<and> map_option (map adjusted_code)
         (analyze_and_suggest ''SELECT MATNR FROM MARC WHERE MARC~WERKS = '1'.'')
     = Some [''SELECT MATNR FROM NSDM_V_MARC WHERE NSDM_V_MARC~WERKS = '1' ORDER BY MATNR.'']"
  by code_simp

text \<open>
  C3: for a single-row statement the ordering policy emits no message and leaves the
  adjusted statement alone, whatever \<^verbatim>\<open>FOR ALL ENTRIES\<close> and \<^verbatim>\<open>ORDER BY\<close> it has. The
  code does otherwise when both are present: lines 150 to 157 have no test for
  \<^verbatim>\<open>SELECT SINGLE\<close>, which the two branches beside them have (lines 160 and 167). At the
  statement below the policy adds its message and takes
  \<^verbatim>\<open>ORDER BY MATNR UP TO 1 ROWS ORDER BY MATNR\<close> out of the statement that the
  single-row block has just built.
\<close>

theorem C3_single_row_ordering_applied:
  "is_single (sel_fields ''SELECT SINGLE MATNR FROM MARA FOR ALL ENTRIES IN IT WHERE MATNR = IT-MATNR ORDER BY MATNR.'')
   \<and> analyze_and_suggest ''SELECT SINGLE MATNR FROM MARA FOR ALL ENTRIES IN IT WHERE MATNR = IT-MATNR ORDER BY MATNR.'' =
       Some [\<lparr>suggestion = ''Do not use `SELECT SINGLE`. Prefer `SELECT ... UP TO 1 ROWS ORDER BY ... . ENDSELECT.` for clarity and compliance. Do NOT use `ORDER BY` with `SELECT SINGLE`. Use `UP TO 1 ROWS ... ORDER BY ...` instead. When using FOR ALL ENTRIES, do not use `ORDER BY` in SQL. Instead, sort the resulting internal table in ABAP. Use: SORT <itab> BY MATNR.'',
              snippet = ''SELECT SINGLE MATNR FROM MARA FOR ALL ENTRIES IN IT WHERE MATNR = IT-MATNR ORDER BY MATNR.'',
              adjusted_code = ''SELECT MATNR FROM MARA WHERE MATNR = IT-MATNR . ENDSELECT.''\<rparr>]"
  by code_simp

text \<open>
  C4: a wildcard projection, \<^verbatim>\<open>*\<close> or \<^verbatim>\<open>distinct *\<close>, of a statement that is not
  single-row is replaced in the adjusted statement. The code classifies
  \<^verbatim>\<open>DISTINCT *\<close> as a wildcard (line 93) and emits the message with the suggested fields,
  but the pattern of its substitution (line 107) is \<^verbatim>\<open>select\s+\*\s+from\<close>, which
  \<^verbatim>\<open>SELECT DISTINCT * FROM\<close> does not match: the wildcard stays.
\<close>

theorem C4_distinct_wildcard_kept:
  "is_star (sel_fields ''SELECT DISTINCT * FROM MARC.'')
   \<and> \<not> is_single (sel_fields ''SELECT DISTINCT * FROM MARC.'')
   \<and> analyze_and_suggest ''SELECT DISTINCT * FROM MARC.'' =
       Some [\<lparr>suggestion = ''Use replacement table `NSDM_V_MARC` instead of `MARC`. Avoid `SELECT *`. Use only these fields: MATNR, WERKS. For deterministic results, add `ORDER BY MATNR, WERKS` to the SELECT statement.'',
              snippet = ''SELECT DISTINCT * FROM MARC.'',
              adjusted_code = ''SELECT DISTINCT * FROM NSDM_V_MARC ORDER BY MATNR, WERKS.''\<rparr>]"
  by code_simp




text \<open>
  C6, as stated: the adjusted code is the original statement with the \<^verbatim>\<open>ORDER BY\<close>
  appended before the terminating period. In the statement below the period stands on
  a line of its own; line 174 strips the line break with the period, so the original
  statement without its period does not even begin the adjusted code.
\<close>

theorem C6_counterexample:
  "statements (''SELECT A FROM T INTO TABLE IT'' @ [CHR 0x0A] @ ''.'') =
       [(''SELECT A FROM T INTO TABLE IT'' @ [CHR 0x0A] @ ''.'', ''T'')]
   \<and> tables_to_replace (''SELECT A FROM T INTO TABLE IT'' @ [CHR 0x0A] @ ''.'') ''T'' = []
   \<and> sel_fields (''SELECT A FROM T INTO TABLE IT'' @ [CHR 0x0A] @ ''.'') = ''A''
   \<and> \<not> fae_present (''SELECT A FROM T INTO TABLE IT'' @ [CHR 0x0A] @ ''.'')
   \<and> order_by_match (''SELECT A FROM T INTO TABLE IT'' @ [CHR 0x0A] @ ''.'') = None
   \<and> map_option (map adjusted_code)
         (analyze_and_suggest (''SELECT A FROM T INTO TABLE IT'' @ [CHR 0x0A] @ ''.'')) =
       Some [''SELECT A FROM T INTO TABLE IT ORDER BY A.'']
   \<and> \<not> prefix (''SELECT A FROM T INTO TABLE IT'' @ [CHR 0x0A])
         ''SELECT A FROM T INTO TABLE IT ORDER BY A.''"
  by code_simp

text \<open>
  C6, amended: for every extracted statement with no table (the one after \<^verbatim>\<open>FROM\<close> or a
  joined one) in the table mapping, with a field list that is not a wildcard, does not
  begin with \<^verbatim>\<open>single\<close> and does not contain \<^verbatim>\<open>distinct\<close> in any case of letters, with
  no \<^verbatim>\<open>FOR ALL ENTRIES\<close> and no \<^verbatim>\<open>ORDER BY\<close>: when the field names (the pieces between
  the commas, stripped, the empty ones left out, joined by a comma and a blank) are not
  empty and not the placeholder, exactly one issue is produced. Its only message
  recommends the \<^verbatim>\<open>ORDER BY\<close>, its snippet is the statement, and its adjusted code is
  the statement without its period and without the blanks before the period, followed
  by \<^verbatim>\<open> ORDER BY \<close>, the field names and a period.
\<close>

theorem C6_order_by_appended:
  assumes "(orig_stmt, main_table) \<in> set (statements src)"
      and "flds = sel_fields orig_stmt"
      and "names = join '', '' (map strip (filter (\<lambda>x. strip x \<noteq> []) (split_on CHR '','' flds)))"
      and "tables_to_replace orig_stmt main_table = []"
      and "\<not> is_star flds" and "\<not> is_single flds"
      and "\<not> contains (lower flds) ''distinct''"
      and "names \<noteq> []" and "names \<noteq> ''<field_list>''"
      and "\<not> fae_present orig_stmt" and "order_by_match orig_stmt = None"
  shows "last orig_stmt = CHR ''.''
         \<and> analyze_stmt orig_stmt main_table =
           Some \<lparr>suggestion = ''For deterministic results, add `ORDER BY '' @ names @ ''` to the SELECT statement.'',
                 snippet = orig_stmt,
                 adjusted_code = rstrip (butlast orig_stmt) @ '' ORDER BY '' @ names @ ''.''\<rparr>"
proof -
  from statements_shape [OF assms(1)] have s: "orig_stmt = strip orig_stmt"
    and l: "last orig_stmt = CHR ''.''"
    and r: "strip (rstrip_dot orig_stmt) = rstrip (butlast orig_stmt)"
    by simp_all
  from order_by_appended_stmt [OF s assms(2-)] l show ?thesis
    by (simp only: r simp_thms)
qed

theorem C6_order_by_appended_witness:
  "(''SELECT A, B FROM T WHERE C = 1.'', ''T'') \<in> set (statements ''SELECT A, B FROM T WHERE C = 1.'')
   \<and> tables_to_replace ''SELECT A, B FROM T WHERE C = 1.'' ''T'' = []
   \<and> sel_fields ''SELECT A, B FROM T WHERE C = 1.'' = ''A, B''
   \<and> \<not> fae_present ''SELECT A, B FROM T WHERE C = 1.''
   \<and> order_by_match ''SELECT A, B FROM T WHERE C = 1.'' = None
   \<and> analyze_stmt ''SELECT A, B FROM T WHERE C = 1.'' ''T'' =
       Some \<lparr>suggestion = ''For deterministic results, add `ORDER BY A, B` to the SELECT statement.'',
             snippet = ''SELECT A, B FROM T WHERE C = 1.'',
             adjusted_code = ''SELECT A, B FROM T WHERE C = 1 ORDER BY A, B.''\<rparr>"
proof -
  have ss: "statements ''SELECT A, B FROM T WHERE C = 1.'' = [(''SELECT A, B FROM T WHERE C = 1.'', ''T'')]"
    by code_simp
  have h1: "(''SELECT A, B FROM T WHERE C = 1.'', ''T'') \<in> set (statements ''SELECT A, B FROM T WHERE C = 1.'')"
    unfolding ss by simp
  have h2: "''A, B'' = sel_fields ''SELECT A, B FROM T WHERE C = 1.''"
    by code_simp
  have h3: "''A, B'' = join '', '' (map strip (filter (\<lambda>x. strip x \<noteq> []) (split_on CHR '','' ''A, B'')))"
    by code_simp
  have h4: "tables_to_replace ''SELECT A, B FROM T WHERE C = 1.'' ''T'' = []"
    by code_simp
  have h5: "\<not> is_star ''A, B''" by code_simp
  have h6: "\<not> is_single ''A, B''" by code_simp
  have h7: "\<not> contains (lower ''A, B'') ''distinct''" by code_simp
  have h8: "''A, B'' \<noteq> []" by simp
  have h9: "''A, B'' \<noteq> ''<field_list>''" by simp
  have h10: "\<not> fae_present ''SELECT A, B FROM T WHERE C = 1.''" by code_simp
  have h11: "order_by_match ''SELECT A, B FROM T WHERE C = 1.'' = None" by code_simp
  have r: "rstrip ''SELECT A, B FROM T WHERE C = 1'' = ''SELECT A, B FROM T WHERE C = 1''"
    by code_simp
  have "analyze_stmt ''SELECT A, B FROM T WHERE C = 1.'' ''T'' =
       Some \<lparr>suggestion = ''For deterministic results, add `ORDER BY A, B` to the SELECT statement.'',
             snippet = ''SELECT A, B FROM T WHERE C = 1.'',
             adjusted_code = ''SELECT A, B FROM T WHERE C = 1 ORDER BY A, B.''\<rparr>"
    using C6_order_by_appended [OF h1 h2 h3 h4 h5 h6 h7 h8 h9 h10 h11] by (simp add: r)
  with h1 h4 h2 [symmetric] h10 h11 show ?thesis by (intro conjI)
qed

text \<open>
  C7: for the source text \<^verbatim>\<open>SELECT SINGLE * FROM KNA1.\<close> the adjusted code is the bounded
  fetch over \<^verbatim>\<open>KNA1\<close> with the field list \<^verbatim>\<open>KUNNR\<close>, an empty WHERE segment (hence the
  two blanks after the table), one row, ordered by \<^verbatim>\<open>KUNNR\<close>.
\<close>

theorem C7_single_kna1:
  "analyze_and_suggest ''SELECT SINGLE * FROM KNA1.'' =
     Some [\<lparr>suggestion = ''Do not use `SELECT SINGLE`. Prefer `SELECT ... UP TO 1 ROWS ORDER BY ... . ENDSELECT.` for clarity and compliance. Use only these fields instead of *: KUNNR.'',
            snippet = ''SELECT SINGLE * FROM KNA1.'',
            adjusted_code = ''SELECT KUNNR FROM KNA1  UP TO 1 ROWS ORDER BY KUNNR. ENDSELECT.''\<rparr>]"
  by code_simp




text \<open>
  C9: the endpoint returns as many records as it was given, in the same order; every
  field of a record (program, include, kind, name, class implementation, start and end
  line, source text) is the one of the input record, and the added field \<open>issues\<close> is
  the list of issues of the record's source text, empty when the analysis found none or
  the record has no source text.
\<close>

theorem C9_units_preserved:
  "length (analyze_code units) = length units
   \<and> map pgm_name (analyze_code units) = map pgm_name units
   \<and> map inc_name (analyze_code units) = map inc_name units
   \<and> map type (analyze_code units) = map type units
   \<and> map name (analyze_code units) = map name units
   \<and> map class_implementation (analyze_code units) = map class_implementation units
   \<and> map start_line (analyze_code units) = map start_line units
   \<and> map end_line (analyze_code units) = map end_line units
   \<and> map code (analyze_code units) = map code units
   \<and> map unit.truncate (analyze_code units) = units
   \<and> map issues (analyze_code units) =
       map (\<lambda>u. issues_of (analyze_and_suggest (code_or_empty u))) units"
proof -
  have t: "map unit.truncate (analyze_code units) = units"
    by (simp add: analyze_code_def truncate_analyze_unit comp_def)
  have f: "map (f \<circ> unit.truncate) (analyze_code units) = map f units" for f :: "unit \<Rightarrow> 'b"
    using arg_cong [OF t, of "map f"] by simp
  have sel: "pgm_name \<circ> unit.truncate = pgm_name" "inc_name \<circ> unit.truncate = inc_name"
    "type \<circ> unit.truncate = type" "name \<circ> unit.truncate = name"
    "class_implementation \<circ> unit.truncate = class_implementation"
    "start_line \<circ> unit.truncate = start_line" "end_line \<circ> unit.truncate = end_line"
    "code \<circ> unit.truncate = code"
    by (simp_all add: fun_eq_iff unit.truncate_def)
  have i: "map issues (analyze_code units) =
       map (\<lambda>u. issues_of (analyze_and_suggest (code_or_empty u))) units"
    by (simp add: analyze_code_def issues_analyze_unit comp_def)
  show ?thesis
    using t i f [of pgm_name] f [of inc_name] f [of type] f [of name]
      f [of class_implementation] f [of start_line] f [of end_line] f [of code]
    by (simp add: sel analyze_code_def)
qed

text \<open>
  C10, as stated: when the pattern of line 83 does not find the field list of an
  extracted statement, the engine takes the projection for \<^verbatim>\<open>*\<close> and applies the whole
  wildcard handling, the replacement by the suggested fields or by the placeholder
  included. The replacement does not take place: the substitution of line 106 looks
  for \<^verbatim>\<open>select\<close>, white space, \<^verbatim>\<open>*\<close>, white space and \<^verbatim>\<open>from\<close>, and a statement that
  began so would have had its field list found. In the first statement below the field
  list \<^verbatim>\<open>A, B\<close> on two lines stays where the suggested fields \<^verbatim>\<open>MATNR, WERKS\<close> should
  stand; in the second, with a table that has no suggested fields, no placeholder is
  put; in the third the placeholder is put into the inner \<^verbatim>\<open>SELECT * FROM U\<close>, not into
  the projection of the statement.
\<close>

theorem C10_counterexample:
  "re_match sel_fields_pattern (''SELECT A,'' @ [CHR 0x0A] @ '' B FROM MARC.'') = None
   \<and> analyze_and_suggest (''SELECT A,'' @ [CHR 0x0A] @ '' B FROM MARC.'') =
       Some [\<lparr>suggestion = ''Use replacement table `NSDM_V_MARC` instead of `MARC`. Avoid `SELECT *`. Use only these fields: MATNR, WERKS. For deterministic results, add `ORDER BY MATNR, WERKS` to the SELECT statement.'',
              snippet = (''SELECT A,'' @ [CHR 0x0A] @ '' B FROM MARC.''),
              adjusted_code = (''SELECT A,'' @ [CHR 0x0A] @ '' B FROM NSDM_V_MARC ORDER BY MATNR, WERKS.'')\<rparr>]
   \<and> re_match sel_fields_pattern (''SELECT A,'' @ [CHR 0x0A] @ '' B FROM T.'') = None
   \<and> analyze_and_suggest (''SELECT A,'' @ [CHR 0x0A] @ '' B FROM T.'') =
       Some [\<lparr>suggestion = ''Avoid `SELECT *`. Use an explicit field list.'',
              snippet = (''SELECT A,'' @ [CHR 0x0A] @ '' B FROM T.''),
              adjusted_code = (''SELECT A,'' @ [CHR 0x0A] @ '' B FROM T.'')\<rparr>]
   \<and> re_match sel_fields_pattern (''SELECT A,'' @ [CHR 0x0A] @ '' B FROM T WHERE C IN ( SELECT * FROM U ).'') = None
   \<and> analyze_and_suggest (''SELECT A,'' @ [CHR 0x0A] @ '' B FROM T WHERE C IN ( SELECT * FROM U ).'') =
       Some [\<lparr>suggestion = ''Avoid `SELECT *`. Use an explicit field list.'',
              snippet = (''SELECT A,'' @ [CHR 0x0A] @ '' B FROM T WHERE C IN ( SELECT * FROM U ).''),
              adjusted_code = (''SELECT A,'' @ [CHR 0x0A] @ '' B FROM T WHERE C IN ( SELECT <field_list> FROM U ).'')\<rparr>]"
  by code_simp

text \<open>
  C10, amended: for every extracted statement whose field list the pattern of line 83
  does not find, \<^verbatim>\<open>fields\<close> is \<^verbatim>\<open>*\<close> and field handling is not skipped. An issue is
  produced and is among the issues of the source text. Its suggestion has the wildcard
  message: with the suggested fields \<open>sf\<close> of the main table after remapping, or, when
  there are none, asking for an explicit field list. The ordering policy works with
  \<open>sf\<close>: when \<open>sf\<close> is not empty and the statement has no \<^verbatim>\<open>ORDER BY\<close>, the suggestion
  recommends \<^verbatim>\<open>ORDER BY sf\<close> and the adjusted code ends with it if there is no
  \<^verbatim>\<open>FOR ALL ENTRIES\<close>, and the suggestion recommends \<^verbatim>\<open>SORT <itab> BY sf\<close> if there is.
  Nothing is said of a replacement of the field list.
\<close>

theorem C10_unmatched_field_list:
  assumes "(orig_stmt, main_table) \<in> set (statements src)"
      and "re_match sel_fields_pattern orig_stmt = None"
      and "sf = suggested (adjusted_main_table (tables_to_replace orig_stmt main_table) main_table)"
  shows "sel_fields orig_stmt = ''*''
         \<and> (\<exists>i. analyze_stmt orig_stmt main_table = Some i
              \<and> i \<in> set (issues_of (analyze_and_suggest src))
              \<and> sublist (if sf \<noteq> [] then ''Avoid `SELECT *`. Use only these fields: '' @ sf @ ''.''
                          else ''Avoid `SELECT *`. Use an explicit field list.'') (suggestion i)
              \<and> (sf \<noteq> [] \<and> \<not> fae_present orig_stmt \<and> order_by_match orig_stmt = None \<longrightarrow>
                   sublist (''For deterministic results, add `ORDER BY '' @ sf @ ''` to the SELECT statement.'')
                     (suggestion i)
                   \<and> suffix ('' ORDER BY '' @ sf @ ''.'') (adjusted_code i))
              \<and> (sf \<noteq> [] \<and> fae_present orig_stmt \<and> order_by_match orig_stmt = None \<longrightarrow>
                   sublist (''For deterministic results, sort the resulting internal table in ABAP. Use: SORT <itab> BY '' @ sf @ ''.'')
                     (suggestion i)))"
proof -
  from statements_shape [OF assms(1)] have s: "strip orig_stmt = orig_stmt" by simp
  define tables where "tables = tables_to_replace orig_stmt main_table"
  define table where "table = adjusted_main_table tables main_table"
  define smsg where "smsg = (if sf \<noteq> [] then ''Avoid `SELECT *`. Use only these fields: '' @ sf @ ''.''
                          else ''Avoid `SELECT *`. Use an explicit field list.'')"
  define w0 where "w0 = replace_tables tables ([], orig_stmt)"
  define w1 where "w1 = (fst w0 @ [smsg],
                    re_sub select_star_pattern
                      (\<lambda>m. ''SELECT '' @ or_placeholder sf @ '' FROM'') (snd w0))"
  define w where "w = order_step orig_stmt ''*'' table w1"
  define i where "i = \<lparr>suggestion = join '' '' (fst w), snippet = orig_stmt, adjusted_code = snd w\<rparr>"
  have sf: "sf = suggested table" by (simp add: assms(3) table_def tables_def)
  have flds: "sel_fields orig_stmt = ''*''"
    using assms(2) by (simp add: sel_fields_def)
  have sm: "star_msg sf = smsg" by (simp add: star_msg_def smsg_def)
  have sfs: "sort_fields ''*'' table = sf"
    by (simp add: sort_fields_def is_star_star sf)
  have star: "star_step ''*'' table w0 = w1"
    by (cases w0) (simp add: is_star_star w1_def sm flip: sf)
  have single: "single_step orig_stmt ''*'' table w1 = w1"
    by (cases w1) (simp add: not_single_star)
  have rules: "apply_rules orig_stmt tables ''*'' table = w"
    by (simp add: apply_rules_def w_def star single flip: w0_def)
  have "smsg \<in> set (fst w1)" by (simp add: w1_def)
  then have mem: "smsg \<in> set (fst w)"
    using fst_order_step_mono [of w1 orig_stmt "''*''" table] by (auto simp: w_def)
  then have "fst w \<noteq> []" by auto
  then have "make_issue orig_stmt w = Some i"
    by (cases w) (simp add: i_def)
  then have an: "analyze_stmt orig_stmt main_table = Some i"
    by (simp add: analyze_stmt_def analyze_stripped_def analyze_tables_def s flds rules
        flip: tables_def table_def)
  have m1: "sublist smsg (suggestion i)"
    using mem by (simp add: i_def sublist_join)
  have m2: "sublist (''For deterministic results, add `ORDER BY '' @ sf @ ''` to the SELECT statement.'')
                     (suggestion i)
            \<and> suffix ('' ORDER BY '' @ sf @ ''.'') (adjusted_code i)"
    if "sf \<noteq> []" "\<not> fae_present orig_stmt" "order_by_match orig_stmt = None"
  proof -
    have "w = (fst w1 @ [''For deterministic results, add `ORDER BY '' @ sf @ ''` to the SELECT statement.''],
               strip (rstrip_dot (snd w1)) @ '' ORDER BY '' @ sf @ ''.'')"
      using that suggested_not_placeholder [of table]
      by (cases w1) (simp add: w_def order_step_def not_single_star sfs flip: sf)
    then show ?thesis
      by (simp add: i_def sublist_join suffix_def)
  qed
  have m3: "sublist (''For deterministic results, sort the resulting internal table in ABAP. Use: SORT <itab> BY '' @ sf @ ''.'')
                     (suggestion i)"
    if "sf \<noteq> []" "fae_present orig_stmt" "order_by_match orig_stmt = None"
  proof -
    have "w = (fst w1 @ [''For deterministic results, sort the resulting internal table in ABAP. Use: SORT <itab> BY '' @ sf @ ''.''],
               snd w1)"
      using that suggested_not_placeholder [of table]
      by (cases w1) (simp add: w_def order_step_def not_single_star sfs flip: sf)
    then show ?thesis
      by (simp add: i_def sublist_join)
  qed
  have c1: "sublist (if sf \<noteq> [] then ''Avoid `SELECT *`. Use only these fields: '' @ sf @ ''.''
                          else ''Avoid `SELECT *`. Use an explicit field list.'') (suggestion i)"
    using m1 unfolding smsg_def .
  have c2: "sf \<noteq> [] \<and> \<not> fae_present orig_stmt \<and> order_by_match orig_stmt = None \<longrightarrow>
                   sublist (''For deterministic results, add `ORDER BY '' @ sf @ ''` to the SELECT statement.'')
                     (suggestion i)
                   \<and> suffix ('' ORDER BY '' @ sf @ ''.'') (adjusted_code i)"
    using m2 by (intro impI) (elim conjE)
  have c3: "sf \<noteq> [] \<and> fae_present orig_stmt \<and> order_by_match orig_stmt = None \<longrightarrow>
                   sublist (''For deterministic results, sort the resulting internal table in ABAP. Use: SORT <itab> BY '' @ sf @ ''.'')
                     (suggestion i)"
    using m3 by (intro impI) (elim conjE)
  from an issue_of_statement [OF assms(1) an] c1 c2 c3
  have "analyze_stmt orig_stmt main_table = Some i
              \<and> i \<in> set (issues_of (analyze_and_suggest src))
              \<and> sublist (if sf \<noteq> [] then ''Avoid `SELECT *`. Use only these fields: '' @ sf @ ''.''
                          else ''Avoid `SELECT *`. Use an explicit field list.'') (suggestion i)
              \<and> (sf \<noteq> [] \<and> \<not> fae_present orig_stmt \<and> order_by_match orig_stmt = None \<longrightarrow>
                   sublist (''For deterministic results, add `ORDER BY '' @ sf @ ''` to the SELECT statement.'')
                     (suggestion i)
                   \<and> suffix ('' ORDER BY '' @ sf @ ''.'') (adjusted_code i))
              \<and> (sf \<noteq> [] \<and> fae_present orig_stmt \<and> order_by_match orig_stmt = None \<longrightarrow>
                   sublist (''For deterministic results, sort the resulting internal table in ABAP. Use: SORT <itab> BY '' @ sf @ ''.'')
                     (suggestion i))"
    by (intro conjI)
  then have "\<exists>i. analyze_stmt orig_stmt main_table = Some i
              \<and> i \<in> set (issues_of (analyze_and_suggest src))
              \<and> sublist (if sf \<noteq> [] then ''Avoid `SELECT *`. Use only these fields: '' @ sf @ ''.''
                          else ''Avoid `SELECT *`. Use an explicit field list.'') (suggestion i)
              \<and> (sf \<noteq> [] \<and> \<not> fae_present orig_stmt \<and> order_by_match orig_stmt = None \<longrightarrow>
                   sublist (''For deterministic results, add `ORDER BY '' @ sf @ ''` to the SELECT statement.'')
                     (suggestion i)
                   \<and> suffix ('' ORDER BY '' @ sf @ ''.'') (adjusted_code i))
              \<and> (sf \<noteq> [] \<and> fae_present orig_stmt \<and> order_by_match orig_stmt = None \<longrightarrow>
                   sublist (''For deterministic results, sort the resulting internal table in ABAP. Use: SORT <itab> BY '' @ sf @ ''.'')
                     (suggestion i))"
    by (rule exI)
  with flds show ?thesis by (rule conjI)
qed

theorem C10_unmatched_field_list_witness:
  "((''SELECT A,'' @ [CHR 0x0A] @ '' B FROM MARC.''), ''MARC'') \<in> set (statements (''SELECT A,'' @ [CHR 0x0A] @ '' B FROM MARC.''))
   \<and> re_match sel_fields_pattern (''SELECT A,'' @ [CHR 0x0A] @ '' B FROM MARC.'') = None
   \<and> \<not> fae_present (''SELECT A,'' @ [CHR 0x0A] @ '' B FROM MARC.'') \<and> order_by_match (''SELECT A,'' @ [CHR 0x0A] @ '' B FROM MARC.'') = None
   \<and> (\<exists>i. analyze_stmt (''SELECT A,'' @ [CHR 0x0A] @ '' B FROM MARC.'') ''MARC'' = Some i
          \<and> i \<in> set (issues_of (analyze_and_suggest (''SELECT A,'' @ [CHR 0x0A] @ '' B FROM MARC.'')))
          \<and> sublist ''Avoid `SELECT *`. Use only these fields: MATNR, WERKS.'' (suggestion i)
          \<and> sublist ''For deterministic results, add `ORDER BY MATNR, WERKS` to the SELECT statement.'' (suggestion i)
          \<and> suffix '' ORDER BY MATNR, WERKS.'' (adjusted_code i))
   \<and> ((''SELECT A,'' @ [CHR 0x0A] @ '' B FROM MARC FOR ALL ENTRIES IN IT WHERE A = IT-A.''), ''MARC'') \<in> set (statements (''SELECT A,'' @ [CHR 0x0A] @ '' B FROM MARC FOR ALL ENTRIES IN IT WHERE A = IT-A.''))
   \<and> re_match sel_fields_pattern (''SELECT A,'' @ [CHR 0x0A] @ '' B FROM MARC FOR ALL ENTRIES IN IT WHERE A = IT-A.'') = None
   \<and> fae_present (''SELECT A,'' @ [CHR 0x0A] @ '' B FROM MARC FOR ALL ENTRIES IN IT WHERE A = IT-A.'') \<and> order_by_match (''SELECT A,'' @ [CHR 0x0A] @ '' B FROM MARC FOR ALL ENTRIES IN IT WHERE A = IT-A.'') = None
   \<and> (\<exists>i. analyze_stmt (''SELECT A,'' @ [CHR 0x0A] @ '' B FROM MARC FOR ALL ENTRIES IN IT WHERE A = IT-A.'') ''MARC'' = Some i
          \<and> i \<in> set (issues_of (analyze_and_suggest (''SELECT A,'' @ [CHR 0x0A] @ '' B FROM MARC FOR ALL ENTRIES IN IT WHERE A = IT-A.'')))
          \<and> sublist ''Avoid `SELECT *`. Use only these fields: MATNR, WERKS.'' (suggestion i)
          \<and> sublist ''For deterministic results, sort the resulting internal table in ABAP. Use: SORT <itab> BY MATNR, WERKS.'' (suggestion i))
   \<and> ((''SELECT A,'' @ [CHR 0x0A] @ '' B FROM T.''), ''T'') \<in> set (statements (''SELECT A,'' @ [CHR 0x0A] @ '' B FROM T.''))
   \<and> re_match sel_fields_pattern (''SELECT A,'' @ [CHR 0x0A] @ '' B FROM T.'') = None
   \<and> (\<exists>i. analyze_stmt (''SELECT A,'' @ [CHR 0x0A] @ '' B FROM T.'') ''T'' = Some i
          \<and> i \<in> set (issues_of (analyze_and_suggest (''SELECT A,'' @ [CHR 0x0A] @ '' B FROM T.'')))
          \<and> sublist ''Avoid `SELECT *`. Use an explicit field list.'' (suggestion i))"
proof -
  have s1: "statements (''SELECT A,'' @ [CHR 0x0A] @ '' B FROM MARC.'') = [((''SELECT A,'' @ [CHR 0x0A] @ '' B FROM MARC.''), ''MARC'')]"
    by code_simp
  have h1: "((''SELECT A,'' @ [CHR 0x0A] @ '' B FROM MARC.''), ''MARC'') \<in> set (statements (''SELECT A,'' @ [CHR 0x0A] @ '' B FROM MARC.''))"
    unfolding s1 by simp
  have m1: "re_match sel_fields_pattern (''SELECT A,'' @ [CHR 0x0A] @ '' B FROM MARC.'') = None"
    by code_simp
  have f1: "\<not> fae_present (''SELECT A,'' @ [CHR 0x0A] @ '' B FROM MARC.'')"
    by code_simp
  have o1: "order_by_match (''SELECT A,'' @ [CHR 0x0A] @ '' B FROM MARC.'') = None"
    by code_simp
  have g1: "''MATNR, WERKS'' = suggested (adjusted_main_table (tables_to_replace (''SELECT A,'' @ [CHR 0x0A] @ '' B FROM MARC.'') ''MARC'') ''MARC'')"
    by code_simp
  from C10_unmatched_field_list [OF h1 m1 g1] f1 o1
  have r1: "\<exists>i. analyze_stmt (''SELECT A,'' @ [CHR 0x0A] @ '' B FROM MARC.'') ''MARC'' = Some i
          \<and> i \<in> set (issues_of (analyze_and_suggest (''SELECT A,'' @ [CHR 0x0A] @ '' B FROM MARC.'')))
          \<and> sublist ''Avoid `SELECT *`. Use only these fields: MATNR, WERKS.'' (suggestion i)
          \<and> sublist ''For deterministic results, add `ORDER BY MATNR, WERKS` to the SELECT statement.'' (suggestion i)
          \<and> suffix '' ORDER BY MATNR, WERKS.'' (adjusted_code i)"
    by simp
  have s2: "statements (''SELECT A,'' @ [CHR 0x0A] @ '' B FROM MARC FOR ALL ENTRIES IN IT WHERE A = IT-A.'') = [((''SELECT A,'' @ [CHR 0x0A] @ '' B FROM MARC FOR ALL ENTRIES IN IT WHERE A = IT-A.''), ''MARC'')]"
    by code_simp
  have h2: "((''SELECT A,'' @ [CHR 0x0A] @ '' B FROM MARC FOR ALL ENTRIES IN IT WHERE A = IT-A.''), ''MARC'') \<in> set (statements (''SELECT A,'' @ [CHR 0x0A] @ '' B FROM MARC FOR ALL ENTRIES IN IT WHERE A = IT-A.''))"
    unfolding s2 by simp
  have m2: "re_match sel_fields_pattern (''SELECT A,'' @ [CHR 0x0A] @ '' B FROM MARC FOR ALL ENTRIES IN IT WHERE A = IT-A.'') = None"
    by code_simp
  have f2: "fae_present (''SELECT A,'' @ [CHR 0x0A] @ '' B FROM MARC FOR ALL ENTRIES IN IT WHERE A = IT-A.'')"
    by code_simp
  have o2: "order_by_match (''SELECT A,'' @ [CHR 0x0A] @ '' B FROM MARC FOR ALL ENTRIES IN IT WHERE A = IT-A.'') = None"
    by code_simp
  have g2: "''MATNR, WERKS'' = suggested (adjusted_main_table (tables_to_replace (''SELECT A,'' @ [CHR 0x0A] @ '' B FROM MARC FOR ALL ENTRIES IN IT WHERE A = IT-A.'') ''MARC'') ''MARC'')"
    by code_simp
  from C10_unmatched_field_list [OF h2 m2 g2] f2 o2
  have r2: "\<exists>i. analyze_stmt (''SELECT A,'' @ [CHR 0x0A] @ '' B FROM MARC FOR ALL ENTRIES IN IT WHERE A = IT-A.'') ''MARC'' = Some i
          \<and> i \<in> set (issues_of (analyze_and_suggest (''SELECT A,'' @ [CHR 0x0A] @ '' B FROM MARC FOR ALL ENTRIES IN IT WHERE A = IT-A.'')))
          \<and> sublist ''Avoid `SELECT *`. Use only these fields: MATNR, WERKS.'' (suggestion i)
          \<and> sublist ''For deterministic results, sort the resulting internal table in ABAP. Use: SORT <itab> BY MATNR, WERKS.'' (suggestion i)"
    by simp
  have s3: "statements (''SELECT A,'' @ [CHR 0x0A] @ '' B FROM T.'') = [((''SELECT A,'' @ [CHR 0x0A] @ '' B FROM T.''), ''T'')]"
    by code_simp
  have h3: "((''SELECT A,'' @ [CHR 0x0A] @ '' B FROM T.''), ''T'') \<in> set (statements (''SELECT A,'' @ [CHR 0x0A] @ '' B FROM T.''))"
    unfolding s3 by simp
  have m3: "re_match sel_fields_pattern (''SELECT A,'' @ [CHR 0x0A] @ '' B FROM T.'') = None"
    by code_simp
  have g3: "[] = suggested (adjusted_main_table (tables_to_replace (''SELECT A,'' @ [CHR 0x0A] @ '' B FROM T.'') ''T'') ''T'')"
    by code_simp
  from C10_unmatched_field_list [OF h3 m3 g3]
  have r3: "\<exists>i. analyze_stmt (''SELECT A,'' @ [CHR 0x0A] @ '' B FROM T.'') ''T'' = Some i
          \<and> i \<in> set (issues_of (analyze_and_suggest (''SELECT A,'' @ [CHR 0x0A] @ '' B FROM T.'')))
          \<and> sublist ''Avoid `SELECT *`. Use an explicit field list.'' (suggestion i)"
    by simp
  from h1 m1 f1 o1 r1 h2 m2 f2 o2 r2 h3 m3 r3 show ?thesis by (intro conjI)
qed

end
